theory Spec2Isabelle
  imports Main "HOL-Library.AList"
begin

section \<open>JavaScript values and strings\<close>

text \<open>
  The wrapper of \<^verbatim>\<open>src/ce-la-react.ts\<close> receives prop values of any JavaScript type
  (\<^verbatim>\<open>unknown\<close>). Primitive values are modelled by their content; functions and objects of
  the caller are references: an identity and the outcome of their conversion to a string
  (\<open>None\<close> where \<^verbatim>\<open>String(x)\<close> throws, as it does for an object without a usable
  \<^verbatim>\<open>toString\<close>, e.g. \<^verbatim>\<open>Object.create(null)\<close>). Arrays, plain objects and React elements
  handed in by the caller are such references too. A number is given by the string that
  \<^verbatim>\<open>String\<close> prints for it (\<^verbatim>\<open>38\<close>, \<^verbatim>\<open>-1.5\<close>, \<^verbatim>\<open>1e+21\<close>, \<^verbatim>\<open>NaN\<close>): the code
  never computes with a number, it only asks for its type and its string. A BigInt is an
  integer and prints in decimal. A string is the list of its code units, one character
  each.
\<close>

datatype jsval =
    JUndefined
  | JNull
  | JBool bool
  | JNum string
  | JBigInt int
  | JStr string
  | JSymbol nat string
  | JFun nat "string option"
  | JObj nat "string option"

datatype js_type =
  TUndefined | TObject | TBoolean | TNumber | TBigint | TString | TSymbol | TFunction

datatype error = TypeError | HookCountChanged

fun js_typeof :: "jsval \<Rightarrow> js_type" where
  "js_typeof JUndefined = TUndefined"
| "js_typeof JNull = TObject"
| "js_typeof (JBool b) = TBoolean"
| "js_typeof (JNum n) = TNumber"
| "js_typeof (JBigInt n) = TBigint"
| "js_typeof (JStr s) = TString"
| "js_typeof (JSymbol i d) = TSymbol"
| "js_typeof (JFun i s) = TFunction"
| "js_typeof (JObj i s) = TObject"

text \<open>\<^verbatim>\<open>x == null\<close>: true of \<^verbatim>\<open>null\<close> and \<^verbatim>\<open>undefined\<close> only.\<close>

definition js_nullish :: "jsval \<Rightarrow> bool" where
  "js_nullish v = (v = JNull \<or> v = JUndefined)"

definition digit_char :: "nat \<Rightarrow> char" where
  "digit_char n = ''0123456789'' ! n"

function string_of_nat :: "nat \<Rightarrow> string" where
  "string_of_nat n =
     (if n < 10 then [digit_char n] else string_of_nat (n div 10) @ [digit_char (n mod 10)])"
  by pat_completeness auto
termination
  by (relation "measure (\<lambda>n. n)") auto

definition string_of_int :: "int \<Rightarrow> string" where
  "string_of_int i = (if i < 0 then CHR ''-'' # string_of_nat (nat (- i)) else string_of_nat (nat i))"

text \<open>\<^verbatim>\<open>String(x)\<close>. It throws a TypeError on a reference whose conversion fails.\<close>

fun js_String :: "jsval \<Rightarrow> error + string" where
  "js_String JUndefined = Inr ''undefined''"
| "js_String JNull = Inr ''null''"
| "js_String (JBool b) = Inr (if b then ''true'' else ''false'')"
| "js_String (JNum n) = Inr n"
| "js_String (JBigInt n) = Inr (string_of_int n)"
| "js_String (JStr s) = Inr s"
| "js_String (JSymbol i d) = Inr (''Symbol('' @ d @ '')'')"
| "js_String (JFun i s) = (case s of None \<Rightarrow> Inl TypeError | Some t \<Rightarrow> Inr t)"
| "js_String (JObj i s) = (case s of None \<Rightarrow> Inl TypeError | Some t \<Rightarrow> Inr t)"

text \<open>
  \<^verbatim>\<open>s.toLowerCase()\<close>. On a string of ASCII characters it replaces the letters A to Z by
  a to z and leaves the rest. What it does to a string with other characters is up to the
  Unicode tables of the host, and is a parameter of the model (see \<open>toLowerCase\<close> below).
  A character is an ASCII character when its code is below 128, that is, when its highest
  bit is not set.
\<close>

definition lower_char :: "char \<Rightarrow> char" where
  "lower_char c =
     (case map_of (zip ''ABCDEFGHIJKLMNOPQRSTUVWXYZ'' ''abcdefghijklmnopqrstuvwxyz'') c of
        None \<Rightarrow> c
      | Some d \<Rightarrow> d)"

definition asciiLowerCase :: "string \<Rightarrow> string" where
  "asciiLowerCase s = map lower_char s"

definition isAscii :: "string \<Rightarrow> bool" where
  "isAscii s = list_all (\<lambda>c. \<not> digit7 c) s"

definition startsWith :: "string \<Rightarrow> string \<Rightarrow> bool" where
  "startsWith s p = (take (length p) s = p)"

definition endsWith :: "string \<Rightarrow> string \<Rightarrow> bool" where
  "endsWith s p = (length p \<le> length s \<and> drop (length s - length p) s = p)"

text \<open>\<^verbatim>\<open>s.slice(0, -n)\<close>: all but the last \<open>n\<close> characters, the empty string when \<open>s\<close>
  has no more than \<open>n\<close>.\<close>

definition slice_off_end :: "string \<Rightarrow> nat \<Rightarrow> string" where
  "slice_off_end s n = take (length s - n) s"

section \<open>Plain objects\<close>

text \<open>
  A plain object (\<^verbatim>\<open>{}\<close>, a \<^verbatim>\<open>Record\<close>) is the list of its own properties in insertion
  order. Assignment replaces the value of a key in place or appends the key. Reading a
  key an object does not own falls through to \<^verbatim>\<open>Object.prototype\<close>, whose members every
  plain object and every class prototype inherits. The list is also the order in which
  \<^verbatim>\<open>for ... in\<close> visits the keys: JavaScript visits integer-like keys first and the
  others in insertion order, so a prop bag is given by its keys in the order of the loop.
  An event prop starts with \<^verbatim>\<open>on\<close> and is never integer-like, so the event props are
  visited in the order in which classification has filed them.
\<close>

type_synonym 'v jsobject = "(string \<times> 'v) list"

definition objectPrototypeNames :: "string list" where
  "objectPrototypeNames =
     [''constructor'', ''__defineGetter__'', ''__defineSetter__'', ''hasOwnProperty'',
      ''__lookupGetter__'', ''__lookupSetter__'', ''isPrototypeOf'', ''propertyIsEnumerable'',
      ''toString'', ''valueOf'', ''__proto__'', ''toLocaleString'']"

text \<open>The inherited member read for a name: a built-in function, and for \<^verbatim>\<open>__proto__\<close>
  the prototype object itself.\<close>

definition objectPrototypeMember :: "string \<Rightarrow> jsval option" where
  "objectPrototypeMember k =
     (if k = ''__proto__'' then Some (JObj 0 (Some ''[object Object]''))
      else if k \<in> set objectPrototypeNames
      then Some (JFun 0 (Some (''function '' @ k @ ''() { [native code] }'')))
      else None)"

text \<open>\<^verbatim>\<open>o[k] = v\<close> on a plain object. The key \<^verbatim>\<open>__proto__\<close> reaches the inherited setter
  and creates no own property (the change of prototype it makes for an object value is
  not tracked).\<close>

definition js_assign :: "'v jsobject \<Rightarrow> string \<Rightarrow> 'v \<Rightarrow> 'v jsobject" where
  "js_assign obj k v = (if k = ''__proto__'' then obj else AList.update k v obj)"

section \<open>Configuration and environment\<close>

text \<open>
  The element class, as far as the wrapper looks at it (\<^verbatim>\<open>CustomElementConstructor\<close>,
  lines 89-97): \<open>prototypeProps\<close> lists the names \<open>k\<close> with \<^verbatim>\<open>k in elementClass.prototype\<close>
  beyond those every object inherits from \<^verbatim>\<open>Object.prototype\<close>.
\<close>

record shadow_root_options =
  sr_mode :: "string option"
  sr_delegatesFocus :: "bool option"

record element_class =
  className :: string
  prototypeProps :: "string list"
  getTemplateHTML :: "(string jsobject \<Rightarrow> jsval jsobject \<Rightarrow> string) option"
  shadowRootOptions :: "shadow_root_options option"
  observedAttributes :: "string list option"

text \<open>
  The options of \<^verbatim>\<open>createComponent\<close> (lines 130-137). \<open>reactVersion\<close> is the value of
  \<^verbatim>\<open>Number.parseInt(React.version)\<close>, \<open>None\<close> for NaN. An absent policy is \<open>None\<close>.
  \<open>toAttributeName\<close> is declared on strings, but line 210 can hand it an inherited member
  of the rename table, so the model takes it on every value, with the error it may throw;
  \<open>toAttributeValue\<close> is declared on \<^verbatim>\<open>unknown\<close> and is taken as a total function.
\<close>

record options =
  reactVersion :: "int option"
  tagName :: string
  elementClass :: element_class
  events :: "string jsobject option"
  displayName :: "string option"
  toAttributeName :: "(jsval \<Rightarrow> error + string) option"
  toAttributeValue :: "(jsval \<Rightarrow> jsval) option"

text \<open>
  What the code reads of its host: whether \<^verbatim>\<open>window\<close> is defined, and the names found by
  \<^verbatim>\<open>in\<close> on \<^verbatim>\<open>globalThis.HTMLElement?.prototype ?? {}\<close> beyond those of
  \<^verbatim>\<open>Object.prototype\<close> (none where \<^verbatim>\<open>HTMLElement\<close> is undefined); and what
  \<^verbatim>\<open>String.prototype.toLowerCase\<close> returns for a string that is not all ASCII.
\<close>

record environment =
  windowDefined :: bool
  htmlElementPrototype :: "string list"
  toLowerCaseBeyondAscii :: "string \<Rightarrow> string"

definition toLowerCase :: "environment \<Rightarrow> string \<Rightarrow> string" where
  "toLowerCase env s = (if isAscii s then asciiLowerCase s else toLowerCaseBeyondAscii env s)"

definition in_elementClass_prototype :: "options \<Rightarrow> string \<Rightarrow> bool" where
  "in_elementClass_prototype opts k =
     (k \<in> set (prototypeProps (elementClass opts)) \<or> k \<in> set objectPrototypeNames)"

definition in_HTMLElement_prototype :: "environment \<Rightarrow> string \<Rightarrow> bool" where
  "in_HTMLElement_prototype env k =
     (k \<in> set (htmlElementPrototype env) \<or> k \<in> set objectPrototypeNames)"

section \<open>Constants and default policies (lines 104-128)\<close>

definition reservedReactProps :: "string list" where
  "reservedReactProps =
     [''style'', ''children'', ''ref'', ''key'', ''suppressContentEditableWarning'',
      ''suppressHydrationWarning'', ''dangerouslySetInnerHTML'']"

text \<open>\<^verbatim>\<open>reactPropToAttrNameMap[k]\<close>: the two own entries, else what the object literal
  inherits.\<close>

definition reactPropToAttrNameMap :: "string \<Rightarrow> jsval option" where
  "reactPropToAttrNameMap k =
     (case map_of [(''className'', JStr ''class''), (''htmlFor'', JStr ''for'')] k of
        Some x \<Rightarrow> Some x
      | None \<Rightarrow> objectPrototypeMember k)"

text \<open>\<^verbatim>\<open>propName.toLowerCase()\<close>: a value that is not a string has no such method, and
  the call throws.\<close>

definition defaultToAttributeName :: "environment \<Rightarrow> jsval \<Rightarrow> error + string" where
  "defaultToAttributeName env propName =
     (case propName of JStr s \<Rightarrow> Inr (toLowerCase env s) | _ \<Rightarrow> Inl TypeError)"

definition defaultToAttributeValue :: "jsval \<Rightarrow> jsval" where
  "defaultToAttributeValue propValue =
     (if js_typeof propValue = TBoolean
      then (if propValue = JBool True then JStr [] else JUndefined)
      else if js_typeof propValue = TFunction then JUndefined
      else if js_typeof propValue = TObject \<and> propValue \<noteq> JNull then JUndefined
      else propValue)"

text \<open>The destructuring defaults of lines 175-176, and line 187.\<close>

definition toAttributeNameOf :: "environment \<Rightarrow> options \<Rightarrow> jsval \<Rightarrow> error + string" where
  "toAttributeNameOf env opts =
     (case toAttributeName opts of None \<Rightarrow> defaultToAttributeName env | Some f \<Rightarrow> f)"

definition toAttributeValueOf :: "options \<Rightarrow> jsval \<Rightarrow> jsval" where
  "toAttributeValueOf opts =
     (case toAttributeValue opts of None \<Rightarrow> defaultToAttributeValue | Some f \<Rightarrow> f)"

definition IS_REACT_19_OR_NEWER :: "options \<Rightarrow> bool" where
  "IS_REACT_19_OR_NEWER opts = (case reactVersion opts of None \<Rightarrow> False | Some n \<Rightarrow> 19 \<le> n)"

section \<open>Classification of the props (lines 195-245)\<close>

text \<open>
  What the wrapper hands to \<^verbatim>\<open>React.createElement\<close>: a value of the caller, or an array,
  an object literal or an element that the wrapper builds itself (lines 303-311).
\<close>

datatype rnode =
    RVal jsval
  | RArr "rnode list"
  | RRec "(string \<times> rnode) list"
  | RElem string "(string \<times> rnode) list"

record classification =
  eventProps :: "jsval jsobject"
  attrs :: "string jsobject"
  reactProps :: "rnode jsobject"
  elementProps :: "jsval jsobject"

definition no_props :: classification where
  "no_props = \<lparr>eventProps = [], attrs = [], reactProps = [], elementProps = []\<rparr>"

text \<open>Line 210: \<^verbatim>\<open>toAttributeName(reactPropToAttrNameMap[k] ?? k)\<close>.\<close>

definition attrNameOf :: "environment \<Rightarrow> options \<Rightarrow> string \<Rightarrow> error + string" where
  "attrNameOf env opts k =
     toAttributeNameOf env opts (case reactPropToAttrNameMap k of Some x \<Rightarrow> x | None \<Rightarrow> JStr k)"

text \<open>The condition of lines 216-220.\<close>

definition isElementProperty :: "environment \<Rightarrow> options \<Rightarrow> string \<Rightarrow> string \<Rightarrow> bool" where
  "isElementProperty env opts k attrName =
     (in_elementClass_prototype opts k \<and>
      \<not> in_HTMLElement_prototype env k \<and>
      \<not> (case observedAttributes (elementClass opts) of
            None \<Rightarrow> False
          | Some obs \<Rightarrow> list_ex (\<lambda>attr. attr = attrName) obs))"

text \<open>Lines 230-244, for a prop that is neither reserved, nor a property, nor an event.\<close>

definition attributeFallback ::
  "options \<Rightarrow> string \<Rightarrow> jsval \<Rightarrow> classification \<Rightarrow> error + classification" where
  "attributeFallback opts attrName v st =
     (let attrValue = toAttributeValueOf opts v in
      case (if attrName \<noteq> [] \<and> \<not> js_nullish attrValue
            then (case js_String attrValue of
                    Inl e \<Rightarrow> Inl e
                  | Inr s \<Rightarrow>
                      Inr (let st1 = st\<lparr>attrs := js_assign (attrs st) attrName s\<rparr> in
                           if \<not> IS_REACT_19_OR_NEWER opts
                           then st1\<lparr>reactProps := js_assign (reactProps st1) attrName (RVal attrValue)\<rparr>
                           else st1))
            else Inr st) of
        Inl e \<Rightarrow> Inl e
      | Inr st2 \<Rightarrow>
          Inr (if attrName \<noteq> [] \<and> IS_REACT_19_OR_NEWER opts
               then st2\<lparr>reactProps := js_assign (reactProps st2) attrName (RVal v)\<rparr>
               else st2))"

text \<open>The body of the loop of line 204 for one entry \<open>(k, v)\<close>.\<close>

definition classify_entry ::
  "environment \<Rightarrow> options \<Rightarrow> string \<times> jsval \<Rightarrow> classification \<Rightarrow> error + classification" where
  "classify_entry env opts kv st =
     (case kv of (k, v) \<Rightarrow>
        if k \<in> set reservedReactProps
        then Inr (st\<lparr>reactProps := js_assign (reactProps st) k (RVal v)\<rparr>)
        else (case attrNameOf env opts k of
                Inl e \<Rightarrow> Inl e
              | Inr attrName \<Rightarrow>
                  if isElementProperty env opts k attrName
                  then Inr (st\<lparr>elementProps := js_assign (elementProps st) k v\<rparr>)
                  else if startsWith k ''on''
                  then Inr (st\<lparr>eventProps := js_assign (eventProps st) k v\<rparr>)
                  else attributeFallback opts attrName v st))"

text \<open>The loop over \<^verbatim>\<open>Object.entries(props)\<close>; an exception ends it.\<close>

fun classify_loop ::
  "environment \<Rightarrow> options \<Rightarrow> jsval jsobject \<Rightarrow> classification \<Rightarrow> error + classification" where
  "classify_loop env opts [] st = Inr st"
| "classify_loop env opts (kv # kvs) st =
     (case classify_entry env opts kv st of
        Inl e \<Rightarrow> Inl e
      | Inr st' \<Rightarrow> classify_loop env opts kvs st')"

definition classify :: "environment \<Rightarrow> options \<Rightarrow> jsval jsobject \<Rightarrow> error + classification" where
  "classify env opts props = classify_loop env opts props no_props"

section \<open>Effects on the live element\<close>

text \<open>
  The live element is an object of the host: what an assignment to one of its fields does
  is up to the element's own accessors. The model therefore records the operations the
  wrapper performs on an element (identified by a number), in the order it performs them.
\<close>

datatype dom_op =
    SetProperty nat string jsval
  | RemoveAttribute nat string
  | AddEventListener nat string jsval bool
  | RemoveEventListener nat string jsval bool

text \<open>\<^verbatim>\<open>setProperty\<close> (lines 339-353).\<close>

definition setProperty :: "environment \<Rightarrow> nat \<Rightarrow> string \<Rightarrow> jsval \<Rightarrow> dom_op list" where
  "setProperty env node name v =
     SetProperty node name v #
     (if js_nullish v \<and> in_HTMLElement_prototype env name then [RemoveAttribute node name] else [])"

text \<open>
  The effect of lines 274-291. \<^verbatim>\<open>prevElemPropsRef.current\<close> and \<^verbatim>\<open>newElemProps\<close> are
  \<^verbatim>\<open>Map\<close>s: lists of entries in insertion order, with \<^verbatim>\<open>delete\<close> and \<^verbatim>\<open>set\<close>.
  The first loop returns the operations, what is left of the previous map and the new map.
\<close>

fun assignElementProps ::
  "environment \<Rightarrow> nat \<Rightarrow> jsval jsobject \<Rightarrow> jsval jsobject \<Rightarrow> jsval jsobject \<Rightarrow>
   dom_op list \<times> jsval jsobject \<times> jsval jsobject" where
  "assignElementProps env node [] prev new = ([], prev, new)"
| "assignElementProps env node ((key, v) # rest) prev new =
     (case assignElementProps env node rest (AList.delete key prev) (AList.update key v new) of
        (ops, prev', new') \<Rightarrow> (setProperty env node key v @ ops, prev', new'))"

fun unsetElementProps :: "environment \<Rightarrow> nat \<Rightarrow> jsval jsobject \<Rightarrow> dom_op list" where
  "unsetElementProps env node [] = []"
| "unsetElementProps env node ((key, v) # rest) =
     setProperty env node key JUndefined @ unsetElementProps env node rest"

definition syncProperties ::
  "environment \<Rightarrow> nat option \<Rightarrow> jsval jsobject \<Rightarrow> jsval jsobject \<Rightarrow>
   dom_op list \<times> jsval jsobject" where
  "syncProperties env elementRef elemProps prevElemProps =
     (case elementRef of
        None \<Rightarrow> ([], prevElemProps)
      | Some node \<Rightarrow>
          (case assignElementProps env node elemProps prevElemProps [] of
             (ops, prev', newElemProps) \<Rightarrow>
               (ops @ unsetElementProps env node prev', newElemProps)))"

text \<open>
  One \<^verbatim>\<open>useLayoutEffect\<close> call of lines 252-270: the event name, the callback, the capture
  flag, and the dependency array \<^verbatim>\<open>[elementRef?.current, callback]\<close> as read while
  rendering. The names that reach line 255 start with \<^verbatim>\<open>on\<close>, which no inherited member
  of the \<^verbatim>\<open>events\<close> object does, so \<^verbatim>\<open>events?.[propName]\<close> reads own entries only.
\<close>

record event_effect =
  ef_eventName :: string
  ef_callback :: jsval
  ef_useCapture :: bool
  ef_deps :: "nat option \<times> jsval"

definition eventNameOf :: "environment \<Rightarrow> options \<Rightarrow> string \<Rightarrow> string" where
  "eventNameOf env opts propName =
     (let useCapture = endsWith propName ''Capture'';
          name = (case (case events opts of None \<Rightarrow> None | Some m \<Rightarrow> map_of m propName) of
                    Some n \<Rightarrow> n
                  | None \<Rightarrow> toLowerCase env (drop 2 propName))
      in if useCapture then slice_off_end name 7 else name)"

definition eventEffects ::
  "environment \<Rightarrow> options \<Rightarrow> nat option \<Rightarrow> jsval jsobject \<Rightarrow> event_effect list" where
  "eventEffects env opts elementRef evProps =
     map (\<lambda>(propName, callback).
            \<lparr>ef_eventName = eventNameOf env opts propName,
             ef_callback = callback,
             ef_useCapture = endsWith propName ''Capture'',
             ef_deps = (elementRef, callback)\<rparr>) evProps"

text \<open>The body of the effect (lines 261-268), run with the value \<^verbatim>\<open>elementRef.current\<close> has
  by then: the operations, and the operation its cleanup will perform, if it returns one.\<close>

definition runEventEffect :: "nat option \<Rightarrow> event_effect \<Rightarrow> dom_op list \<times> dom_op option" where
  "runEventEffect elementRef ef =
     (case elementRef of
        None \<Rightarrow> ([], None)
      | Some eventTarget \<Rightarrow>
          if js_typeof (ef_callback ef) \<noteq> TFunction then ([], None)
          else ([AddEventListener eventTarget (ef_eventName ef) (ef_callback ef) (ef_useCapture ef)],
                Some (RemoveEventListener eventTarget (ef_eventName ef) (ef_callback ef)
                        (ef_useCapture ef))))"

section \<open>One render (lines 191-328)\<close>

text \<open>
  The result of one call of the component function: the type and the props spread into
  \<^verbatim>\<open>React.createElement\<close> (the \<^verbatim>\<open>ref\<close> entry that the call then sets to the merged
  reference callback is left out), and the layout effects it has scheduled.
\<close>

record render_output =
  ro_type :: string
  ro_props :: "rnode jsobject"
  ro_eventEffects :: "event_effect list"
  ro_propertyEffect :: "jsval jsobject option"

definition jsval_of_string_option :: "string option \<Rightarrow> jsval" where
  "jsval_of_string_option s = (case s of None \<Rightarrow> JUndefined | Some t \<Rightarrow> JStr t)"

definition jsval_of_bool_option :: "bool option \<Rightarrow> jsval" where
  "jsval_of_bool_option b = (case b of None \<Rightarrow> JUndefined | Some t \<Rightarrow> JBool t)"

text \<open>Lines 301-309.\<close>

definition templateShadowRoot :: "shadow_root_options \<Rightarrow> string \<Rightarrow> rnode" where
  "templateShadowRoot sro html =
     RElem ''template''
       [(''shadowrootmode'', RVal (jsval_of_string_option (sr_mode sro))),
        (''shadowrootdelegatesfocus'', RVal (jsval_of_bool_option (sr_delegatesFocus sro))),
        (''dangerouslySetInnerHTML'', RRec [(''__html'', RVal (JStr html))])]"

text \<open>Lines 296-312: the props for the creation call.\<close>

definition withTemplate ::
  "environment \<Rightarrow> options \<Rightarrow> jsval jsobject \<Rightarrow> classification \<Rightarrow> rnode jsobject" where
  "withTemplate env opts props c =
     (if \<not> windowDefined env
      then (case getTemplateHTML (elementClass opts) of
              None \<Rightarrow> reactProps c
            | Some html \<Rightarrow>
                (case shadowRootOptions (elementClass opts) of
                   None \<Rightarrow> reactProps c
                 | Some sro \<Rightarrow>
                     js_assign (reactProps c) ''children''
                       (RArr [templateShadowRoot sro (html (attrs c) props),
                              (case map_of (reactProps c) ''children'' of
                                 None \<Rightarrow> RVal JUndefined
                               | Some ch \<Rightarrow> ch)])))
      else reactProps c)"

definition ReactComponent ::
  "environment \<Rightarrow> options \<Rightarrow> nat option \<Rightarrow> jsval jsobject \<Rightarrow> error + render_output" where
  "ReactComponent env opts elementRef props =
     (case classify env opts props of
        Inl e \<Rightarrow> Inl e
      | Inr c \<Rightarrow>
          Inr \<lparr>ro_type = tagName opts,
               ro_props = withTemplate env opts props c,
               ro_eventEffects =
                 (if windowDefined env then eventEffects env opts elementRef (eventProps c) else []),
               ro_propertyEffect =
                 (if windowDefined env then Some (elementProps c) else None)\<rparr>)"

text \<open>Line 330.\<close>

definition componentDisplayName :: "options \<Rightarrow> string" where
  "componentDisplayName opts =
     (case displayName opts of None \<Rightarrow> className (elementClass opts) | Some n \<Rightarrow> n)"

section \<open>The commit phase of the host framework\<close>

text \<open>
  The wrapper only declares its effects; React runs them. This section states the part of
  React's contract for \<^verbatim>\<open>useLayoutEffect\<close> that the wrapper relies on:
  \<^item> the reference callback of the rendered element has run before the layout effects of
    the component, so the effects see the live element in \<^verbatim>\<open>elementRef.current\<close>;
  \<^item> on mount every effect runs; on an update an effect with a dependency array runs
    when one of its dependencies differs (\<^verbatim>\<open>Object.is\<close>) from the previous render's,
    after the cleanup its previous run returned, and an effect without a dependency
    array runs every time; the cleanups of one commit run before its effects;
  \<^item> hooks are matched by position, and a render that calls a different number of hooks
    than the previous one is rejected with an error;
  \<^item> on unmount the cleanups run, and the reference callback is called with \<^verbatim>\<open>null\<close>.
  The state of one mounted instance: the two \<^verbatim>\<open>useRef\<close> cells of lines 192-193, and per
  event effect the dependencies of the last render and the pending cleanup.
\<close>

record effect_slot =
  es_deps :: "nat option \<times> jsval"
  es_cleanup :: "dom_op option"

record mounted =
  elementRef :: "nat option"
  prevElemPropsRef :: "jsval jsobject"
  eventSlots :: "effect_slot list"

definition runCleanup :: "effect_slot \<Rightarrow> dom_op list" where
  "runCleanup s = (case es_cleanup s of None \<Rightarrow> [] | Some c \<Rightarrow> [c])"

definition mountEventEffect :: "nat option \<Rightarrow> event_effect \<Rightarrow> dom_op list \<times> effect_slot" where
  "mountEventEffect r ef =
     (case runEventEffect r ef of
        (ops, cleanup) \<Rightarrow> (ops, \<lparr>es_deps = ef_deps ef, es_cleanup = cleanup\<rparr>))"

text \<open>For the effects of an update, slot by slot: the cleanups that run, the operations of
  the effects that run, and the new slots.\<close>

fun updateEventEffects ::
  "nat option \<Rightarrow> effect_slot list \<Rightarrow> event_effect list \<Rightarrow>
   dom_op list \<times> dom_op list \<times> effect_slot list" where
  "updateEventEffects r (s # ss) (ef # efs) =
     (case updateEventEffects r ss efs of
        (cleanups, ops, slots) \<Rightarrow>
          if es_deps s = ef_deps ef then (cleanups, ops, s # slots)
          else (case mountEventEffect r ef of
                  (ops', s') \<Rightarrow> (runCleanup s @ cleanups, ops' @ ops, s' # slots)))"
| "updateEventEffects r ss efs = ([], [], [])"

definition runPropertyEffect ::
  "environment \<Rightarrow> nat option \<Rightarrow> jsval jsobject option \<Rightarrow> jsval jsobject \<Rightarrow>
   dom_op list \<times> jsval jsobject" where
  "runPropertyEffect env r eff prev =
     (case eff of None \<Rightarrow> ([], prev) | Some elemProps \<Rightarrow> syncProperties env r elemProps prev)"

text \<open>Mounting: the first render sees \<^verbatim>\<open>elementRef.current = null\<close>; the commit attaches the
  element \<open>node\<close> and runs every effect.\<close>

definition mount ::
  "environment \<Rightarrow> options \<Rightarrow> nat \<Rightarrow> jsval jsobject \<Rightarrow> error + (mounted \<times> dom_op list)" where
  "mount env opts node props =
     (case ReactComponent env opts None props of
        Inl e \<Rightarrow> Inl e
      | Inr out \<Rightarrow>
          (let mounted = map (mountEventEffect (Some node)) (ro_eventEffects out) in
           case runPropertyEffect env (Some node) (ro_propertyEffect out) [] of
             (pops, prev) \<Rightarrow>
               Inr (\<lparr>elementRef = Some node, prevElemPropsRef = prev, eventSlots = map snd mounted\<rparr>,
                    concat (map fst mounted) @ pops)))"

definition update ::
  "environment \<Rightarrow> options \<Rightarrow> mounted \<Rightarrow> jsval jsobject \<Rightarrow> error + (mounted \<times> dom_op list)" where
  "update env opts inst props =
     (case ReactComponent env opts (elementRef inst) props of
        Inl e \<Rightarrow> Inl e
      | Inr out \<Rightarrow>
          if length (ro_eventEffects out) \<noteq> length (eventSlots inst) then Inl HookCountChanged
          else (case updateEventEffects (elementRef inst) (eventSlots inst) (ro_eventEffects out) of
                  (cleanups, ops, slots) \<Rightarrow>
                    (case runPropertyEffect env (elementRef inst) (ro_propertyEffect out)
                            (prevElemPropsRef inst) of
                       (pops, prev) \<Rightarrow>
                         Inr (inst\<lparr>prevElemPropsRef := prev, eventSlots := slots\<rparr>,
                              cleanups @ ops @ pops))))"

definition unmount :: "mounted \<Rightarrow> mounted \<times> dom_op list" where
  "unmount inst =
     (inst\<lparr>elementRef := None, eventSlots := map (\<lambda>s. s\<lparr>es_cleanup := None\<rparr>) (eventSlots inst)\<rparr>,
      concat (map runCleanup (eventSlots inst)))"

section \<open>The destinations, as the specification names them\<close>

text \<open>
  The specification speaks of four destinations and of the rule that sends a prop to one of
  them. The code has no such function: it is the chain of tests in the loop body. The
  following definition states the rule in the specification's terms, to be compared with
  \<open>classify_entry\<close>; \<open>None\<close> is a key for which line 210 throws before any test beyond the
  first is made.
\<close>

datatype destination = Reserved | ElementProperty | EventHandler | ElementAttribute

definition destinationOf :: "environment \<Rightarrow> options \<Rightarrow> string \<Rightarrow> destination option" where
  "destinationOf env opts k =
     (if k \<in> set reservedReactProps then Some Reserved
      else (case attrNameOf env opts k of
              Inl e \<Rightarrow> None
            | Inr attrName \<Rightarrow>
                if isElementProperty env opts k attrName then Some ElementProperty
                else if startsWith k ''on'' then Some EventHandler
                else Some ElementAttribute))"

text \<open>The invariant of the specification's data model, read on the four objects the loop
  fills: the key is a key of exactly one of them.\<close>

definition has_key :: "'v jsobject \<Rightarrow> string \<Rightarrow> bool" where
  "has_key obj k = (k \<in> fst ` set obj)"

definition in_exactly_one_destination :: "classification \<Rightarrow> string \<Rightarrow> bool" where
  "in_exactly_one_destination c k =
     (length (filter (\<lambda>b. b)
        [has_key (reactProps c) k, has_key (elementProps c) k,
         has_key (eventProps c) k, has_key (attrs c) k]) = 1)"

text \<open>The attribute names under which the props that take the attribute rule are filed.\<close>

definition attributeNames :: "environment \<Rightarrow> options \<Rightarrow> jsval jsobject \<Rightarrow> string set" where
  "attributeNames env opts props =
     {a. \<exists>k \<in> fst ` set props.
           destinationOf env opts k = Some ElementAttribute \<and> attrNameOf env opts k = Inr a}"

section \<open>The element of the test suite, and other examples\<close>

text \<open>A few of the names of \<^verbatim>\<open>HTMLElement.prototype\<close>. The examples use ASCII
  names only, so the lower-casing of other strings plays no part in them; the two example
  hosts lower-case the ASCII letters of such a string and leave the rest.\<close>

definition htmlElementNames :: "string list" where
  "htmlElementNames =
     [''id'', ''title'', ''hidden'', ''draggable'', ''className'', ''tabIndex'', ''style'',
      ''children'']"

definition browserEnv :: environment where
  "browserEnv =
     \<lparr>windowDefined = True, htmlElementPrototype = htmlElementNames,
      toLowerCaseBeyondAscii = asciiLowerCase\<rparr>"

definition serverEnv :: environment where
  "serverEnv =
     \<lparr>windowDefined = False, htmlElementPrototype = [],
      toLowerCaseBeyondAscii = asciiLowerCase\<rparr>"

text \<open>\<^verbatim>\<open>MyProfile\<close> of \<^verbatim>\<open>test/ce-la-react.tsx\<close> and the options the test passes.\<close>

definition MyProfile :: element_class where
  "MyProfile =
     \<lparr>className = ''MyProfile'',
      prototypeProps =
        [''firstName'', ''age'', ''human'', ''metadata'', ''render'', ''connectedCallback'',
         ''attributeChangedCallback''] @ htmlElementNames,
      getTemplateHTML =
        Some (\<lambda>attrs props.
                ''<h1>Hello, '' @
                (case map_of attrs ''firstname'' of None \<Rightarrow> ''undefined'' | Some s \<Rightarrow> s) @
                ''!</h1>''),
      shadowRootOptions = Some \<lparr>sr_mode = Some ''open'', sr_delegatesFocus = None\<rparr>,
      observedAttributes = Some [''firstname'', ''age'', ''human'']\<rparr>"

definition MyProfileOptions :: "int \<Rightarrow> options" where
  "MyProfileOptions version =
     \<lparr>reactVersion = Some version,
      tagName = ''my-profile'',
      elementClass = MyProfile,
      events = Some [(''onFirstName'', ''firstname'')],
      displayName = None,
      toAttributeName = None,
      toAttributeValue = None\<rparr>"

text \<open>A label-like element with an \<^verbatim>\<open>htmlFor\<close> accessor, no observed attributes and no
  template.\<close>

definition MyLabel :: element_class where
  "MyLabel =
     \<lparr>className = ''MyLabel'',
      prototypeProps = ''htmlFor'' # htmlElementNames,
      getTemplateHTML = None,
      shadowRootOptions = None,
      observedAttributes = None\<rparr>"

definition MyLabelOptions :: "int \<Rightarrow> options" where
  "MyLabelOptions version =
     \<lparr>reactVersion = Some version,
      tagName = ''my-label'',
      elementClass = MyLabel,
      events = None,
      displayName = None,
      toAttributeName = None,
      toAttributeValue = None\<rparr>"

text \<open>A naming policy that gives no attribute to props whose name starts with an
  underscore and keeps every other name.\<close>

definition skipUnderscored :: "jsval \<Rightarrow> error + string" where
  "skipUnderscored propName =
     (case propName of
        JStr s \<Rightarrow> Inr (if startsWith s ''_'' then [] else s)
      | _ \<Rightarrow> Inl TypeError)"

definition handler1 :: jsval where
  "handler1 = JFun 1 (Some ''() => { firstNameEventCount++; }'')"

definition handler2 :: jsval where
  "handler2 = JFun 2 (Some ''() => {}'')"

definition metadataObject :: jsval where
  "metadataObject = JObj 3 (Some ''[object Object]'')"

text \<open>The props of the test's render call (\<^verbatim>\<open>test/ce-la-react.tsx\<close>, lines 163-178), and
  their classification with React 19.\<close>

definition testProps :: "jsval jsobject" where
  "testProps =
     [(''suppressHydrationWarning'', JBool True),
      (''metadata'', metadataObject),
      (''onFirstName'', handler1),
      (''firstName'', JStr ''Wesley''),
      (''age'', JNum ''38''),
      (''human'', JBool True),
      (''className'', JStr ''my-class''),
      (''style'', JObj 4 (Some ''[object Object]'')),
      (''tabIndex'', JNum ''0''),
      (''children'', JObj 5 (Some ''[object Object]''))]"

definition testClassification :: classification where
  "testClassification =
     \<lparr>eventProps = [(''onFirstName'', handler1)],
      attrs =
        [(''firstname'', ''Wesley''), (''age'', ''38''), (''human'', []),
         (''class'', ''my-class''), (''tabindex'', ''0'')],
      reactProps =
        [(''suppressHydrationWarning'', RVal (JBool True)),
         (''firstname'', RVal (JStr ''Wesley'')),
         (''age'', RVal (JNum ''38'')),
         (''human'', RVal (JBool True)),
         (''class'', RVal (JStr ''my-class'')),
         (''style'', RVal (JObj 4 (Some ''[object Object]''))),
         (''tabindex'', RVal (JNum ''0'')),
         (''children'', RVal (JObj 5 (Some ''[object Object]'')))],
      elementProps = [(''metadata'', metadataObject)]\<rparr>"

text \<open>The options of the test with the naming policy \<open>skipUnderscored\<close>.\<close>

definition SkippingOptions :: "int \<Rightarrow> options" where
  "SkippingOptions version = (MyProfileOptions version)\<lparr>toAttributeName := Some skipUnderscored\<rparr>"

text \<open>Off the browser \<^verbatim>\<open>MyProfile\<close> extends an empty class (line 25 of the test), so its
  prototype has its own accessors and methods only.\<close>

definition MyProfileOnServer :: element_class where
  "MyProfileOnServer =
     MyProfile\<lparr>prototypeProps :=
       [''firstName'', ''age'', ''human'', ''metadata'', ''render'', ''connectedCallback'',
        ''attributeChangedCallback'']\<rparr>"

definition ServerOptions :: "int \<Rightarrow> options" where
  "ServerOptions version = (MyProfileOptions version)\<lparr>elementClass := MyProfileOnServer\<rparr>"

text \<open>The instance after the test's component is mounted on the element 7, and the props
  of a second render that passes another handler.\<close>

definition mountedProfile :: mounted where
  "mountedProfile =
     \<lparr>elementRef = Some 7,
      prevElemPropsRef = [(''metadata'', metadataObject)],
      eventSlots =
        [\<lparr>es_deps = (None, handler1),
          es_cleanup = Some (RemoveEventListener 7 ''firstname'' handler1 False)\<rparr>]\<rparr>"

definition testProps2 :: "jsval jsobject" where
  "testProps2 = AList.update ''onFirstName'' handler2 testProps"

text \<open>Two handlers, one for the event \<^verbatim>\<open>a\<close> and one for the event \<^verbatim>\<open>b\<close> of the test's
  element, and the same two props with the handlers exchanged, written in the other
  order. \<open>firstMounted\<close> is the instance after the first bag is mounted on the element 7,
  and \<open>mountedTwoHandlers\<close> the instance after it is rendered once more with the same bag.\<close>

definition twoHandlers :: "jsval jsobject" where
  "twoHandlers = [(''onA'', handler1), (''onB'', handler2)]"

definition twoHandlersSwapped :: "jsval jsobject" where
  "twoHandlersSwapped = [(''onB'', handler1), (''onA'', handler2)]"

definition firstMounted :: mounted where
  "firstMounted =
     \<lparr>elementRef = Some 7,
      prevElemPropsRef = [],
      eventSlots =
        [\<lparr>es_deps = (None, handler1),
          es_cleanup = Some (RemoveEventListener 7 ''a'' handler1 False)\<rparr>,
         \<lparr>es_deps = (None, handler2),
          es_cleanup = Some (RemoveEventListener 7 ''b'' handler2 False)\<rparr>]\<rparr>"

definition mountedTwoHandlers :: mounted where
  "mountedTwoHandlers =
     \<lparr>elementRef = Some 7,
      prevElemPropsRef = [],
      eventSlots =
        [\<lparr>es_deps = (Some 7, handler1),
          es_cleanup = Some (RemoveEventListener 7 ''a'' handler1 False)\<rparr>,
         \<lparr>es_deps = (Some 7, handler2),
          es_cleanup = Some (RemoveEventListener 7 ''b'' handler2 False)\<rparr>]\<rparr>"

section \<open>Properties\<close>

subsection \<open>Auxiliary facts about the classification loop\<close>

lemma js_assign_keys:
  "fst ` set (js_assign obj k v) = (if k = ''__proto__'' then fst ` set obj else insert k (fst ` set obj))"
  by (simp add: js_assign_def AList.dom_update)

lemma js_assign_fresh:
  "k \<noteq> ''__proto__'' \<Longrightarrow> k \<notin> fst ` set obj \<Longrightarrow> js_assign obj k v = obj @ [(k, v)]"
  by (induction obj) (auto simp: js_assign_def)

lemma proto_not_reserved: "''__proto__'' \<notin> set reservedReactProps"
  by (simp add: reservedReactProps_def)

lemma proto_inherited: "''__proto__'' \<in> set objectPrototypeNames"
  by (simp add: objectPrototypeNames_def)

lemma reserved_entry:
  "destinationOf env opts k = Some Reserved \<Longrightarrow>
   classify_entry env opts (k, v) st = Inr (st\<lparr>reactProps := js_assign (reactProps st) k (RVal v)\<rparr>)
   \<and> k \<in> set reservedReactProps"
  by (auto simp: classify_entry_def destinationOf_def split: sum.splits if_splits)

lemma property_entry:
  "destinationOf env opts k = Some ElementProperty \<Longrightarrow>
   classify_entry env opts (k, v) st = Inr (st\<lparr>elementProps := js_assign (elementProps st) k v\<rparr>)
   \<and> k \<noteq> ''__proto__''"
  by (auto simp: classify_entry_def destinationOf_def isElementProperty_def
      in_HTMLElement_prototype_def proto_inherited split: sum.splits if_splits)

lemma event_entry:
  "destinationOf env opts k = Some EventHandler \<Longrightarrow>
   classify_entry env opts (k, v) st = Inr (st\<lparr>eventProps := js_assign (eventProps st) k v\<rparr>)
   \<and> k \<noteq> ''__proto__''"
  by (auto simp: classify_entry_def destinationOf_def startsWith_def split: sum.splits if_splits)

lemma attribute_entry:
  "destinationOf env opts k = Some ElementAttribute \<Longrightarrow>
   \<exists>a. attrNameOf env opts k = Inr a \<and> classify_entry env opts (k, v) st = attributeFallback opts a v st"
  by (auto simp: classify_entry_def destinationOf_def split: sum.splits if_splits)

lemma failing_entry:
  "destinationOf env opts k = None \<Longrightarrow> \<exists>e. classify_entry env opts (k, v) st = Inl e"
  by (auto simp: classify_entry_def destinationOf_def split: sum.splits if_splits)

lemma attributeFallback_eq:
  "attributeFallback opts a v st =
     (if a = [] then Inr st
      else if js_nullish (toAttributeValueOf opts v)
      then Inr (if IS_REACT_19_OR_NEWER opts
                then st\<lparr>reactProps := js_assign (reactProps st) a (RVal v)\<rparr> else st)
      else (case js_String (toAttributeValueOf opts v) of
              Inl e \<Rightarrow> Inl e
            | Inr s \<Rightarrow>
                Inr (if IS_REACT_19_OR_NEWER opts
                     then st\<lparr>attrs := js_assign (attrs st) a s,
                             reactProps := js_assign (reactProps st) a (RVal v)\<rparr>
                     else st\<lparr>attrs := js_assign (attrs st) a s,
                             reactProps :=
                               js_assign (reactProps st) a (RVal (toAttributeValueOf opts v))\<rparr>)))"
  by (simp add: attributeFallback_def Let_def split: sum.splits)

lemma attributeFallback_frame:
  "attributeFallback opts a v st = Inr st' \<Longrightarrow>
   elementProps st' = elementProps st \<and> eventProps st' = eventProps st \<and>
   fst ` set (attrs st') \<subseteq> insert a (fst ` set (attrs st)) \<and>
   fst ` set (reactProps st') \<subseteq> insert a (fst ` set (reactProps st)) \<and>
   fst ` set (attrs st) \<subseteq> fst ` set (attrs st') \<and>
   fst ` set (reactProps st) \<subseteq> fst ` set (reactProps st')"
  unfolding attributeFallback_def Let_def
  by (clarsimp simp: js_assign_keys split: sum.splits if_splits; blast)


lemma entry_cases:
  assumes "classify_entry env opts (k, v) st = Inr st'"
  obtains
    (to_reserved) "destinationOf env opts k = Some Reserved"
      "st' = st\<lparr>reactProps := js_assign (reactProps st) k (RVal v)\<rparr>" "k \<noteq> ''__proto__''"
  | (to_property) "destinationOf env opts k = Some ElementProperty"
      "st' = st\<lparr>elementProps := js_assign (elementProps st) k v\<rparr>" "k \<noteq> ''__proto__''"
  | (to_event) "destinationOf env opts k = Some EventHandler"
      "st' = st\<lparr>eventProps := js_assign (eventProps st) k v\<rparr>" "k \<noteq> ''__proto__''"
  | (to_attribute) a where "destinationOf env opts k = Some ElementAttribute"
      "attrNameOf env opts k = Inr a" "attributeFallback opts a v st = Inr st'"
proof (cases "destinationOf env opts k")
  case None
  with failing_entry [of env opts k v st] assms show ?thesis by auto
next
  case (Some d)
  show ?thesis
  proof (cases d)
    case Reserved
    with Some reserved_entry [of env opts k v st] assms proto_not_reserved to_reserved
    show ?thesis by auto
  next
    case ElementProperty
    with Some property_entry [of env opts k v st] assms to_property show ?thesis by auto
  next
    case EventHandler
    with Some event_entry [of env opts k v st] assms to_event show ?thesis by auto
  next
    case ElementAttribute
    with Some attribute_entry [of env opts k v st] assms to_attribute show ?thesis by auto
  qed
qed

lemma entry_total:
  "classify_entry env opts (k, v) st = Inr st' \<Longrightarrow> destinationOf env opts k \<noteq> None"
  by (erule entry_cases) simp_all

lemma entry_elementProps:
  "classify_entry env opts (k, v) st = Inr st' \<Longrightarrow>
   elementProps st' =
     (if destinationOf env opts k = Some ElementProperty
      then js_assign (elementProps st) k v else elementProps st)"
  by (erule entry_cases) (auto dest: attributeFallback_frame)

lemma entry_eventProps:
  "classify_entry env opts (k, v) st = Inr st' \<Longrightarrow>
   eventProps st' =
     (if destinationOf env opts k = Some EventHandler
      then js_assign (eventProps st) k v else eventProps st)"
  by (erule entry_cases) (auto dest: attributeFallback_frame)

lemma entry_not_proto:
  "classify_entry env opts (k, v) st = Inr st' \<Longrightarrow>
   destinationOf env opts k \<noteq> Some ElementAttribute \<Longrightarrow> k \<noteq> ''__proto__''"
  by (erule entry_cases) simp_all

lemma entry_attrs_keys:
  "classify_entry env opts (k, v) st = Inr st' \<Longrightarrow>
   fst ` set (attrs st) \<subseteq> fst ` set (attrs st') \<and>
   fst ` set (attrs st') \<subseteq> fst ` set (attrs st) \<union> attributeNames env opts [(k, v)]"
  by (erule entry_cases) (auto simp: attributeNames_def dest!: attributeFallback_frame)

lemma entry_reactProps_keys:
  "classify_entry env opts (k, v) st = Inr st' \<Longrightarrow>
   fst ` set (reactProps st) \<union> {k'. k' = k \<and> k \<in> set reservedReactProps} \<subseteq> fst ` set (reactProps st') \<and>
   fst ` set (reactProps st') \<subseteq>
     fst ` set (reactProps st) \<union> {k'. k' = k \<and> k \<in> set reservedReactProps} \<union>
     attributeNames env opts [(k, v)]"
  apply (erule entry_cases)
  apply (auto simp: attributeNames_def js_assign_keys destinationOf_def  dest!: attributeFallback_frame split: if_splits sum.splits)
  done


lemma attributeNames_Cons:
  "attributeNames env opts (kv # kvs) = attributeNames env opts [kv] \<union> attributeNames env opts kvs"
  by (auto simp: attributeNames_def)

lemma loop_total:
  "classify_loop env opts props st = Inr r \<Longrightarrow> k \<in> fst ` set props \<Longrightarrow>
   destinationOf env opts k \<noteq> None"
proof (induction props arbitrary: st)
  case Nil
  then show ?case by simp
next
  case (Cons kv kvs)
  obtain k' v' where kv: "kv = (k', v')" by (cases kv)
  from Cons.prems(1) kv obtain st' where
    e: "classify_entry env opts (k', v') st = Inr st'" and l: "classify_loop env opts kvs st' = Inr r"
    by (auto split: sum.splits)
  show ?case
  proof (cases "k = k'")
    case True
    with entry_total [OF e] show ?thesis by simp
  next
    case False
    with Cons.prems(2) kv have "k \<in> fst ` set kvs" by auto
    with Cons.IH [OF l] show ?thesis .
  qed
qed

lemma loop_elementProps_keys:
  "classify_loop env opts props st = Inr r \<Longrightarrow>
   fst ` set (elementProps r) =
     fst ` set (elementProps st) \<union>
     {k \<in> fst ` set props. destinationOf env opts k = Some ElementProperty}"
proof (induction props arbitrary: st)
  case Nil
  then show ?case by simp
next
  case (Cons kv kvs)
  obtain k' v' where kv: "kv = (k', v')" by (cases kv)
  from Cons.prems(1) kv obtain st' where
    e: "classify_entry env opts (k', v') st = Inr st'" and l: "classify_loop env opts kvs st' = Inr r"
    by (auto split: sum.splits)
  have "fst ` set (elementProps st') =
          fst ` set (elementProps st) \<union> {k. k = k' \<and> destinationOf env opts k' = Some ElementProperty}"
    using entry_elementProps [OF e] entry_not_proto [OF e] by (auto simp: js_assign_keys)
  with Cons.IH [OF l] kv show ?case by auto
qed

lemma loop_eventProps_keys:
  "classify_loop env opts props st = Inr r \<Longrightarrow>
   fst ` set (eventProps r) =
     fst ` set (eventProps st) \<union>
     {k \<in> fst ` set props. destinationOf env opts k = Some EventHandler}"
proof (induction props arbitrary: st)
  case Nil
  then show ?case by simp
next
  case (Cons kv kvs)
  obtain k' v' where kv: "kv = (k', v')" by (cases kv)
  from Cons.prems(1) kv obtain st' where
    e: "classify_entry env opts (k', v') st = Inr st'" and l: "classify_loop env opts kvs st' = Inr r"
    by (auto split: sum.splits)
  have "fst ` set (eventProps st') =
          fst ` set (eventProps st) \<union> {k. k = k' \<and> destinationOf env opts k' = Some EventHandler}"
    using entry_eventProps [OF e] entry_not_proto [OF e] by (auto simp: js_assign_keys)
  with Cons.IH [OF l] kv show ?case by auto
qed

lemma subset_chain: "B \<subseteq> A \<union> N1 \<Longrightarrow> R \<subseteq> B \<union> N2 \<Longrightarrow> R \<subseteq> A \<union> (N1 \<union> N2)"
  by blast

lemma subset_chain2:
  "A \<union> S1 \<subseteq> B \<and> B \<subseteq> A \<union> S1 \<union> N1 \<Longrightarrow> B \<union> S2 \<subseteq> R \<and> R \<subseteq> B \<union> S2 \<union> N2 \<Longrightarrow>
   A \<union> (S1 \<union> S2) \<subseteq> R \<and> R \<subseteq> A \<union> (S1 \<union> S2) \<union> (N1 \<union> N2)"
  by blast

lemma loop_attrs_keys:
  "classify_loop env opts props st = Inr r \<Longrightarrow>
   fst ` set (attrs r) \<subseteq> fst ` set (attrs st) \<union> attributeNames env opts props"
proof (induction props arbitrary: st)
  case Nil
  then show ?case by simp
next
  case (Cons kv kvs)
  obtain k' v' where kv: "kv = (k', v')" by (cases kv)
  from Cons.prems(1) kv obtain st' where
    e: "classify_entry env opts (k', v') st = Inr st'" and l: "classify_loop env opts kvs st' = Inr r"
    by (auto split: sum.splits)
  have names: "attributeNames env opts (kv # kvs) =
      attributeNames env opts [(k', v')] \<union> attributeNames env opts kvs"
    unfolding kv by (rule attributeNames_Cons)
  show ?case
    unfolding names by (rule subset_chain [OF conjunct2 [OF entry_attrs_keys [OF e]] Cons.IH [OF l]])
qed

lemma loop_reactProps_keys:
  "classify_loop env opts props st = Inr r \<Longrightarrow>
   fst ` set (reactProps st) \<union> (fst ` set props \<inter> set reservedReactProps) \<subseteq> fst ` set (reactProps r) \<and>
   fst ` set (reactProps r) \<subseteq>
     fst ` set (reactProps st) \<union> (fst ` set props \<inter> set reservedReactProps) \<union>
     attributeNames env opts props"
proof (induction props arbitrary: st)
  case Nil
  then show ?case by simp
next
  case (Cons kv kvs)
  obtain k' v' where kv: "kv = (k', v')" by (cases kv)
  from Cons.prems(1) kv obtain st' where
    e: "classify_entry env opts (k', v') st = Inr st'" and l: "classify_loop env opts kvs st' = Inr r"
    by (auto split: sum.splits)
  have keys: "fst ` set (kv # kvs) \<inter> set reservedReactProps =
      {k. k = k' \<and> k' \<in> set reservedReactProps} \<union> (fst ` set kvs \<inter> set reservedReactProps)"
    unfolding kv by auto
  have names: "attributeNames env opts (kv # kvs) =
      attributeNames env opts [(k', v')] \<union> attributeNames env opts kvs"
    unfolding kv by (rule attributeNames_Cons)
  show ?case
    unfolding names keys by (rule subset_chain2 [OF entry_reactProps_keys [OF e] Cons.IH [OF l]])
qed

lemma js_assign_keys_mono:
  "fst ` set A \<subseteq> fst ` set R \<Longrightarrow> fst ` set (js_assign A a s) \<subseteq> fst ` set (js_assign R a w)"
  unfolding js_assign_keys by (simp add: subset_insertI2)

lemma js_assign_keys_grow:
  "fst ` set A \<subseteq> fst ` set R \<Longrightarrow> fst ` set A \<subseteq> fst ` set (js_assign R a w)"
  unfolding js_assign_keys by (simp add: subset_insertI2)

lemma attributeFallback_attrs_filed:
  assumes "attributeFallback opts a v st = Inr st'"
    and "fst ` set (attrs st) \<subseteq> fst ` set (reactProps st)"
  shows "fst ` set (attrs st') \<subseteq> fst ` set (reactProps st')"
proof -
  from assms(1) consider (same) "st' = st"
    | (one) w where "st' = st\<lparr>reactProps := js_assign (reactProps st) a w\<rparr>"
    | (both) s w where "st' = st\<lparr>attrs := js_assign (attrs st) a s,
                                   reactProps := js_assign (reactProps st) a w\<rparr>"
    by (auto simp: attributeFallback_eq split: if_splits sum.splits)
  then show ?thesis
  proof cases
    case same
    with assms(2) show ?thesis by simp
  next
    case one
    with js_assign_keys_grow [OF assms(2)] show ?thesis by simp
  next
    case both
    with js_assign_keys_mono [OF assms(2)] show ?thesis by simp
  qed
qed

lemma entry_attrs_filed:
  assumes "classify_entry env opts (k, v) st = Inr st'"
    and "fst ` set (attrs st) \<subseteq> fst ` set (reactProps st)"
  shows "fst ` set (attrs st') \<subseteq> fst ` set (reactProps st')"
  using assms(1)
proof (cases rule: entry_cases)
  case to_reserved
  with js_assign_keys_grow [OF assms(2)] show ?thesis by simp
next
  case to_property
  with assms(2) show ?thesis by simp
next
  case to_event
  with assms(2) show ?thesis by simp
next
  case (to_attribute a)
  from to_attribute(3) assms(2) show ?thesis by (rule attributeFallback_attrs_filed)
qed

lemma loop_attrs_filed:
  "classify_loop env opts props st = Inr r \<Longrightarrow>
   fst ` set (attrs st) \<subseteq> fst ` set (reactProps st) \<Longrightarrow>
   fst ` set (attrs r) \<subseteq> fst ` set (reactProps r)"
proof (induction props arbitrary: st)
  case Nil
  then show ?case by simp
next
  case (Cons kv kvs)
  obtain k' v' where kv: "kv = (k', v')" by (cases kv)
  from Cons.prems(1) kv obtain st' where
    e: "classify_entry env opts (k', v') st = Inr st'" and l: "classify_loop env opts kvs st' = Inr r"
    by (auto split: sum.splits)
  from e Cons.prems(2) have "fst ` set (attrs st') \<subseteq> fst ` set (reactProps st')"
    by (rule entry_attrs_filed)
  with l show ?case by (rule Cons.IH)
qed

lemma loop_elementProps_list:
  "classify_loop env opts props st = Inr r \<Longrightarrow> distinct (map fst props) \<Longrightarrow>
   fst ` set props \<inter> fst ` set (elementProps st) = {} \<Longrightarrow>
   elementProps r =
     elementProps st @ filter (\<lambda>kv. destinationOf env opts (fst kv) = Some ElementProperty) props"
proof (induction props arbitrary: st)
  case Nil
  then show ?case by simp
next
  case (Cons kv kvs)
  obtain k' v' where kv: "kv = (k', v')" by (cases kv)
  from Cons.prems(1) kv obtain st' where
    e: "classify_entry env opts (k', v') st = Inr st'" and l: "classify_loop env opts kvs st' = Inr r"
    by (auto split: sum.splits)
  have fresh: "k' \<notin> fst ` set (elementProps st)" using Cons.prems(3) kv by auto
  have st': "elementProps st' =
      elementProps st @ filter (\<lambda>kv. destinationOf env opts (fst kv) = Some ElementProperty) [kv]"
    using entry_elementProps [OF e] entry_not_proto [OF e] fresh kv
    by (auto simp: js_assign_fresh)
  have "fst ` set kvs \<inter> fst ` set (elementProps st') = {}"
    using Cons.prems(2,3) kv st' by (auto split: if_splits)
  with Cons.IH [OF l] Cons.prems(2) st' show ?case by simp
qed

lemma loop_eventProps_list:
  "classify_loop env opts props st = Inr r \<Longrightarrow> distinct (map fst props) \<Longrightarrow>
   fst ` set props \<inter> fst ` set (eventProps st) = {} \<Longrightarrow>
   eventProps r =
     eventProps st @ filter (\<lambda>kv. destinationOf env opts (fst kv) = Some EventHandler) props"
proof (induction props arbitrary: st)
  case Nil
  then show ?case by simp
next
  case (Cons kv kvs)
  obtain k' v' where kv: "kv = (k', v')" by (cases kv)
  from Cons.prems(1) kv obtain st' where
    e: "classify_entry env opts (k', v') st = Inr st'" and l: "classify_loop env opts kvs st' = Inr r"
    by (auto split: sum.splits)
  have fresh: "k' \<notin> fst ` set (eventProps st)" using Cons.prems(3) kv by auto
  have st': "eventProps st' =
      eventProps st @ filter (\<lambda>kv. destinationOf env opts (fst kv) = Some EventHandler) [kv]"
    using entry_eventProps [OF e] entry_not_proto [OF e] fresh kv
    by (auto simp: js_assign_fresh)
  have "fst ` set kvs \<inter> fst ` set (eventProps st') = {}"
    using Cons.prems(2,3) kv st' by (auto split: if_splits)
  with Cons.IH [OF l] Cons.prems(2) st' show ?case by simp
qed

lemma reserved_dest: "destinationOf env opts k = Some Reserved \<longleftrightarrow> k \<in> set reservedReactProps"
  by (auto simp: destinationOf_def split: sum.splits)

lemma property_dest:
  "destinationOf env opts k = Some ElementProperty \<longleftrightarrow>
   k \<notin> set reservedReactProps \<and> in_elementClass_prototype opts k \<and>
   \<not> in_HTMLElement_prototype env k \<and>
   (\<exists>a. attrNameOf env opts k = Inr a \<and>
        (case observedAttributes (elementClass opts) of None \<Rightarrow> True | Some obs \<Rightarrow> a \<notin> set obs))"
  by (auto simp: destinationOf_def isElementProperty_def list_ex_iff split: sum.splits option.splits)

lemma test_classification:
  "classify browserEnv (MyProfileOptions 19) testProps = Inr testClassification"
  by code_simp

subsection \<open>C1: every key in exactly one destination set\<close>

text \<open>
  Claim C1 says that classification assigns each key of the prop bag to exactly one of the
  four destination sets. Read on the four objects the loop fills, this fails both ways:
  with React 18 and the element of the test suite, the prop \<^verbatim>\<open>title\<close> is a key of \<open>attrs\<close>
  and of \<open>reactProps\<close>, and the prop \<^verbatim>\<open>hidden = false\<close> is a key of none of the four.
\<close>

theorem destination_sets_counterexample:
  "classify browserEnv (MyProfileOptions 18) [(''title'', JStr ''Hi''), (''hidden'', JBool False)] =
     Inr \<lparr>eventProps = [], attrs = [(''title'', ''Hi'')],
          reactProps = [(''title'', RVal (JStr ''Hi''))], elementProps = []\<rparr> \<and>
   \<not> in_exactly_one_destination
       \<lparr>eventProps = [], attrs = [(''title'', ''Hi'')],
        reactProps = [(''title'', RVal (JStr ''Hi''))], elementProps = []\<rparr> ''title'' \<and>
   \<not> in_exactly_one_destination
       \<lparr>eventProps = [], attrs = [(''title'', ''Hi'')],
        reactProps = [(''title'', RVal (JStr ''Hi''))], elementProps = []\<rparr> ''hidden''"
  by code_simp

text \<open>
  C1 as amended. When classification completes, every key of the bag takes exactly one of
  the four rules, and the rule depends on the name only. \<open>elementProps\<close> holds exactly the
  keys that take the property rule and \<open>eventProps\<close> exactly those that take the event rule
  (with their values and in the order of the bag, the keys of a bag being distinct); every
  reserved key is a key of \<open>reactProps\<close>; and the other keys of \<open>reactProps\<close>, and all keys of
  \<open>attrs\<close>, are resolved attribute names of props that take the attribute rule. Every key
  of \<open>attrs\<close> is a key of \<open>reactProps\<close> too: such a prop may be filed under its attribute
  name in both, in \<open>reactProps\<close> only, or in neither.
\<close>

theorem destination_sets:
  assumes "classify env opts props = Inr c"
  shows "(\<forall>k \<in> fst ` set props. \<exists>!d. destinationOf env opts k = Some d) \<and>
         fst ` set (elementProps c) =
           {k \<in> fst ` set props. destinationOf env opts k = Some ElementProperty} \<and>
         fst ` set (eventProps c) =
           {k \<in> fst ` set props. destinationOf env opts k = Some EventHandler} \<and>
         {k \<in> fst ` set props. destinationOf env opts k = Some Reserved} \<subseteq> fst ` set (reactProps c) \<and>
         fst ` set (reactProps c) \<subseteq>
           {k \<in> fst ` set props. destinationOf env opts k = Some Reserved} \<union>
           attributeNames env opts props \<and>
         fst ` set (attrs c) \<subseteq> attributeNames env opts props \<and>
         fst ` set (attrs c) \<subseteq> fst ` set (reactProps c) \<and>
         (distinct (map fst props) \<longrightarrow>
            elementProps c =
              filter (\<lambda>kv. destinationOf env opts (fst kv) = Some ElementProperty) props \<and>
            eventProps c =
              filter (\<lambda>kv. destinationOf env opts (fst kv) = Some EventHandler) props)"
proof -
  from assms have l: "classify_loop env opts props no_props = Inr c"
    by (simp add: classify_def)
  have res: "{k \<in> fst ` set props. destinationOf env opts k = Some Reserved} =
      fst ` set props \<inter> set reservedReactProps"
    by (simp add: reserved_dest Int_def)
  have none: "fst ` set (reactProps no_props) = {}" "fst ` set (attrs no_props) = {}"
    "fst ` set (elementProps no_props) = {}" "fst ` set (eventProps no_props) = {}"
    "elementProps no_props = []" "eventProps no_props = []"
    by (simp_all add: no_props_def)
  have "\<forall>k \<in> fst ` set props. \<exists>!d. destinationOf env opts k = Some d"
  proof
    fix k assume "k \<in> fst ` set props"
    from loop_total [OF l this] show "\<exists>!d. destinationOf env opts k = Some d" by auto
  qed
  moreover have "fst ` set (elementProps c) =
           {k \<in> fst ` set props. destinationOf env opts k = Some ElementProperty}"
    using loop_elementProps_keys [OF l] by (simp add: none)
  moreover have "fst ` set (eventProps c) =
           {k \<in> fst ` set props. destinationOf env opts k = Some EventHandler}"
    using loop_eventProps_keys [OF l] by (simp add: none)
  moreover have "{k \<in> fst ` set props. destinationOf env opts k = Some Reserved} \<subseteq> fst ` set (reactProps c)"
    using loop_reactProps_keys [OF l] by (simp add: none res)
  moreover have "fst ` set (reactProps c) \<subseteq>
           {k \<in> fst ` set props. destinationOf env opts k = Some Reserved} \<union>
           attributeNames env opts props"
    using loop_reactProps_keys [OF l] by (simp add: none res)
  moreover have "fst ` set (attrs c) \<subseteq> attributeNames env opts props"
    using loop_attrs_keys [OF l] by (simp add: none)
  moreover have "fst ` set (attrs c) \<subseteq> fst ` set (reactProps c)"
    using loop_attrs_filed [OF l] by (simp add: none)
  moreover have "distinct (map fst props) \<longrightarrow>
            elementProps c =
              filter (\<lambda>kv. destinationOf env opts (fst kv) = Some ElementProperty) props \<and>
            eventProps c =
              filter (\<lambda>kv. destinationOf env opts (fst kv) = Some EventHandler) props"
    using loop_elementProps_list [OF l] loop_eventProps_list [OF l] by (simp add: none)
  ultimately show ?thesis by (intro conjI)
qed

text \<open>The props of the test suite, with React 19, are an instance.\<close>

theorem destination_sets_witness:
  "classify browserEnv (MyProfileOptions 19) testProps = Inr testClassification \<and>
   distinct (map fst testProps) \<and>
   fst ` set (elementProps testClassification) =
     {k \<in> fst ` set testProps.
        destinationOf browserEnv (MyProfileOptions 19) k = Some ElementProperty} \<and>
   fst ` set (eventProps testClassification) =
     {k \<in> fst ` set testProps.
        destinationOf browserEnv (MyProfileOptions 19) k = Some EventHandler} \<and>
   fst ` set (attrs testClassification) \<subseteq>
     attributeNames browserEnv (MyProfileOptions 19) testProps \<and>
   fst ` set (attrs testClassification) \<subseteq> fst ` set (reactProps testClassification) \<and>
   elementProps testClassification =
     filter (\<lambda>kv. destinationOf browserEnv (MyProfileOptions 19) (fst kv) = Some ElementProperty)
       testProps"
proof -
  have d: "distinct (map fst testProps)" by (simp add: testProps_def)
  note t = destination_sets [OF test_classification]
  from t d have "elementProps testClassification =
     filter (\<lambda>kv. destinationOf browserEnv (MyProfileOptions 19) (fst kv) = Some ElementProperty)
       testProps"
    by (elim conjE) (rule conjunct1, erule mp)
  with t d test_classification show ?thesis by (elim conjE) (intro conjI)
qed
subsection \<open>C2: the element-property test\<close>

text \<open>
  Claim C2 applies the test to the name after the renames \<^verbatim>\<open>className\<close> to \<^verbatim>\<open>class\<close> and
  \<^verbatim>\<open>htmlFor\<close> to \<^verbatim>\<open>for\<close>. The code tests the name as given (line 217) and uses the
  renamed one for the attribute name only: a prop \<^verbatim>\<open>htmlFor\<close> is routed to the element
  properties of an element with an \<^verbatim>\<open>htmlFor\<close> accessor, although \<^verbatim>\<open>for\<close> is no property
  of its prototype.
\<close>

theorem element_property_rule_counterexample:
  "classify browserEnv (MyLabelOptions 19) [(''htmlFor'', JStr ''name-input'')] =
     Inr \<lparr>eventProps = [], attrs = [], reactProps = [],
          elementProps = [(''htmlFor'', JStr ''name-input'')]\<rparr> \<and>
   reactPropToAttrNameMap ''htmlFor'' = Some (JStr ''for'') \<and>
   \<not> in_elementClass_prototype (MyLabelOptions 19) ''for''"
  by code_simp

text \<open>
  C2 as amended. When classification completes, a prop is routed to the element properties
  if and only if it is not reserved, its name as given is a property of the element
  class's prototype and not of the \<^verbatim>\<open>HTMLElement\<close> prototype, and its resolved attribute
  name (after the renames and the naming policy) is not listed in \<^verbatim>\<open>observedAttributes\<close>;
  it is filed there under its own name with its value unchanged. A prop that is not
  reserved and whose resolved attribute name is observed is never an element property:
  it takes the event rule when its name starts with \<^verbatim>\<open>on\<close> and the attribute rule
  otherwise.
\<close>

theorem element_property_rule:
  assumes "classify env opts props = Inr c"
  shows "(k \<in> fst ` set (elementProps c) \<longleftrightarrow>
            k \<in> fst ` set props \<and> k \<notin> set reservedReactProps \<and>
            in_elementClass_prototype opts k \<and> \<not> in_HTMLElement_prototype env k \<and>
            (\<exists>a. attrNameOf env opts k = Inr a \<and>
                 (case observedAttributes (elementClass opts) of
                    None \<Rightarrow> True
                  | Some obs \<Rightarrow> a \<notin> set obs))) \<and>
         (distinct (map fst props) \<longrightarrow> (k, v) \<in> set props \<longrightarrow>
            k \<in> fst ` set (elementProps c) \<longrightarrow> map_of (elementProps c) k = Some v) \<and>
         (k \<in> fst ` set props \<longrightarrow> k \<notin> set reservedReactProps \<longrightarrow>
            attrNameOf env opts k = Inr a \<longrightarrow>
            observedAttributes (elementClass opts) = Some obs \<longrightarrow> a \<in> set obs \<longrightarrow>
              k \<notin> fst ` set (elementProps c) \<and>
              destinationOf env opts k =
                Some (if startsWith k ''on'' then EventHandler else ElementAttribute) \<and>
              (\<not> startsWith k ''on'' \<longrightarrow>
                 classify_entry env opts (k, v) st = attributeFallback opts a v st))"
proof -
  from assms have l: "classify_loop env opts props no_props = Inr c"
    by (simp add: classify_def)
  have keys: "fst ` set (elementProps c) =
      {k \<in> fst ` set props. destinationOf env opts k = Some ElementProperty}"
    using loop_elementProps_keys [OF l] by (simp add: no_props_def)
  have first: "k \<in> fst ` set (elementProps c) \<longleftrightarrow>
            k \<in> fst ` set props \<and> k \<notin> set reservedReactProps \<and>
            in_elementClass_prototype opts k \<and> \<not> in_HTMLElement_prototype env k \<and>
            (\<exists>a. attrNameOf env opts k = Inr a \<and>
                 (case observedAttributes (elementClass opts) of
                    None \<Rightarrow> True
                  | Some obs \<Rightarrow> a \<notin> set obs))"
    unfolding keys by (simp add: property_dest)
  have second: "map_of (elementProps c) k = Some v"
    if d: "distinct (map fst props)" and m: "(k, v) \<in> set props"
      and e: "k \<in> fst ` set (elementProps c)"
  proof -
    from loop_elementProps_list [OF l d]
    have eq: "elementProps c =
        filter (\<lambda>kv. destinationOf env opts (fst kv) = Some ElementProperty) props"
      by (simp add: no_props_def)
    from e keys have "destinationOf env opts k = Some ElementProperty" by simp
    with m have "(k, v) \<in> set (elementProps c)" unfolding eq by simp
    moreover have "distinct (map fst (elementProps c))"
      unfolding eq using d by (simp add: distinct_map_filter)
    ultimately show ?thesis by simp
  qed
  have third: "k \<notin> fst ` set (elementProps c) \<and>
              destinationOf env opts k =
                Some (if startsWith k ''on'' then EventHandler else ElementAttribute) \<and>
              (\<not> startsWith k ''on'' \<longrightarrow>
                 classify_entry env opts (k, v) st = attributeFallback opts a v st)"
    if "k \<in> fst ` set props" "k \<notin> set reservedReactProps" "attrNameOf env opts k = Inr a"
      "observedAttributes (elementClass opts) = Some obs" "a \<in> set obs"
  proof -
    from that have n: "\<not> isElementProperty env opts k a"
      by (simp add: isElementProperty_def list_ex_iff)
    with that have dest: "destinationOf env opts k =
        Some (if startsWith k ''on'' then EventHandler else ElementAttribute)"
      by (simp add: destinationOf_def)
    moreover from dest keys have "k \<notin> fst ` set (elementProps c)" by simp
    moreover from n that have "\<not> startsWith k ''on'' \<longrightarrow>
        classify_entry env opts (k, v) st = attributeFallback opts a v st"
      by (simp add: classify_entry_def)
    ultimately show ?thesis by (intro conjI)
  qed
  have second': "distinct (map fst props) \<longrightarrow> (k, v) \<in> set props \<longrightarrow>
      k \<in> fst ` set (elementProps c) \<longrightarrow> map_of (elementProps c) k = Some v"
    by (intro impI) (rule second)
  have third': "k \<in> fst ` set props \<longrightarrow> k \<notin> set reservedReactProps \<longrightarrow>
      attrNameOf env opts k = Inr a \<longrightarrow>
      observedAttributes (elementClass opts) = Some obs \<longrightarrow> a \<in> set obs \<longrightarrow>
        k \<notin> fst ` set (elementProps c) \<and>
        destinationOf env opts k =
          Some (if startsWith k ''on'' then EventHandler else ElementAttribute) \<and>
        (\<not> startsWith k ''on'' \<longrightarrow>
           classify_entry env opts (k, v) st = attributeFallback opts a v st)"
    by (intro impI) (rule third)
  from first second' third' show ?thesis by (intro conjI)
qed

text \<open>
  In the test suite \<^verbatim>\<open>metadata\<close> becomes an element property; \<^verbatim>\<open>firstName\<close>, whose
  attribute name \<^verbatim>\<open>firstname\<close> is observed, becomes an attribute although the class has a
  \<^verbatim>\<open>firstName\<close> accessor.
\<close>

theorem element_property_rule_witness:
  "classify browserEnv (MyProfileOptions 19) testProps = Inr testClassification \<and>
   ''metadata'' \<in> fst ` set (elementProps testClassification) \<and>
   map_of (elementProps testClassification) ''metadata'' = Some metadataObject \<and>
   in_elementClass_prototype (MyProfileOptions 19) ''firstName'' \<and>
   ''firstName'' \<notin> fst ` set (elementProps testClassification) \<and>
   destinationOf browserEnv (MyProfileOptions 19) ''firstName'' = Some ElementAttribute \<and>
   classify_entry browserEnv (MyProfileOptions 19) (''firstName'', JStr ''Wesley'') no_props =
     attributeFallback (MyProfileOptions 19) ''firstname'' (JStr ''Wesley'') no_props"
proof -
  note t = element_property_rule [OF test_classification]
  have d: "distinct (map fst testProps)" by (simp add: testProps_def)
  have m: "(''metadata'', metadataObject) \<in> set testProps" by (simp add: testProps_def)
  have e: "''metadata'' \<in> fst ` set (elementProps testClassification)"
    by (simp add: testClassification_def)
  have f: "''firstName'' \<in> fst ` set testProps" by (simp add: testProps_def)
  have r: "''firstName'' \<notin> set reservedReactProps" by (simp add: reservedReactProps_def)
  have a: "attrNameOf browserEnv (MyProfileOptions 19) ''firstName'' = Inr ''firstname''" by code_simp
  have ob: "observedAttributes (elementClass (MyProfileOptions 19)) =
      Some [''firstname'', ''age'', ''human'']"
    by (simp add: MyProfileOptions_def MyProfile_def)
  have i: "''firstname'' \<in> set [''firstname'', ''age'', ''human'']" by simp
  have on: "\<not> startsWith ''firstName'' ''on''" by (simp add: startsWith_def)
  have p: "in_elementClass_prototype (MyProfileOptions 19) ''firstName''" by code_simp
  have 1: "map_of (elementProps testClassification) ''metadata'' = Some metadataObject"
    by (rule t [THEN conjunct2, THEN conjunct1, rule_format, OF d m e])
  have 2: "''firstName'' \<notin> fst ` set (elementProps testClassification) \<and>
   destinationOf browserEnv (MyProfileOptions 19) ''firstName'' = Some ElementAttribute \<and>
   classify_entry browserEnv (MyProfileOptions 19) (''firstName'', JStr ''Wesley'') no_props =
     attributeFallback (MyProfileOptions 19) ''firstname'' (JStr ''Wesley'') no_props"
    using t [THEN conjunct2, THEN conjunct2, rule_format, OF f r a ob i,
        of "JStr ''Wesley''" no_props] on
    by simp
  from test_classification e 1 p 2 show ?thesis by (intro conjI) (elim conjE, assumption)+
qed
subsection \<open>C3: the order of the four rules\<close>




lemma js_assign_same: "k \<noteq> ''__proto__'' \<Longrightarrow> map_of (js_assign obj k v) k = Some v"
  by (simp add: js_assign_def AList.update_conv')







subsection \<open>C5: an attribute prop whose converted value is absent\<close>



subsection \<open>C6: the default conversion of attribute values\<close>

text \<open>
  Claim C6. \<^verbatim>\<open>defaultToAttributeValue\<close> maps \<^verbatim>\<open>true\<close> to the empty string, \<^verbatim>\<open>false\<close> to
  \<^verbatim>\<open>undefined\<close>, functions and objects other than \<^verbatim>\<open>null\<close> to \<^verbatim>\<open>undefined\<close>, and every
  other value, \<^verbatim>\<open>null\<close> included, to itself; it is the conversion in force when the
  options give none. Where the conversion is used (lines 230-233), a converted value that
  is \<^verbatim>\<open>null\<close> or \<^verbatim>\<open>undefined\<close> leaves the attribute set as it was, and \<^verbatim>\<open>true\<close> under the
  default conversion gives the attribute the empty string as its value.
\<close>

theorem default_attribute_value:
  "defaultToAttributeValue (JBool True) = JStr [] \<and>
   defaultToAttributeValue (JBool False) = JUndefined \<and>
   (js_typeof v = TFunction \<longrightarrow> defaultToAttributeValue v = JUndefined) \<and>
   (js_typeof v = TObject \<longrightarrow> v \<noteq> JNull \<longrightarrow> defaultToAttributeValue v = JUndefined) \<and>
   (js_typeof v \<notin> {TBoolean, TFunction, TObject} \<or> v = JNull \<longrightarrow>
      defaultToAttributeValue v = v) \<and>
   (toAttributeValue opts = None \<longrightarrow> toAttributeValueOf opts = defaultToAttributeValue) \<and>
   (js_nullish (toAttributeValueOf opts w) \<longrightarrow>
      (\<exists>st'. attributeFallback opts a w st = Inr st' \<and> attrs st' = attrs st)) \<and>
   (toAttributeValue opts = None \<longrightarrow> a \<noteq> [] \<longrightarrow> a \<noteq> ''__proto__'' \<longrightarrow>
      (\<exists>st'. attributeFallback opts a (JBool True) st = Inr st' \<and>
             map_of (attrs st') a = Some []))"
proof -
  have 1: "defaultToAttributeValue (JBool True) = JStr []"
    and 2: "defaultToAttributeValue (JBool False) = JUndefined"
    by (simp_all add: defaultToAttributeValue_def)
  have 3: "js_typeof v = TFunction \<longrightarrow> defaultToAttributeValue v = JUndefined"
    by (simp add: defaultToAttributeValue_def)
  have 4: "js_typeof v = TObject \<longrightarrow> v \<noteq> JNull \<longrightarrow> defaultToAttributeValue v = JUndefined"
    by (simp add: defaultToAttributeValue_def)
  have 5: "js_typeof v \<notin> {TBoolean, TFunction, TObject} \<or> v = JNull \<longrightarrow>
      defaultToAttributeValue v = v"
    by (auto simp: defaultToAttributeValue_def)
  have 6: "toAttributeValue opts = None \<longrightarrow> toAttributeValueOf opts = defaultToAttributeValue"
    by (simp add: toAttributeValueOf_def)
  have 7: "js_nullish (toAttributeValueOf opts w) \<longrightarrow>
      (\<exists>st'. attributeFallback opts a w st = Inr st' \<and> attrs st' = attrs st)"
    by (simp add: attributeFallback_eq)
  have 8: "toAttributeValue opts = None \<longrightarrow> a \<noteq> [] \<longrightarrow> a \<noteq> ''__proto__'' \<longrightarrow>
      (\<exists>st'. attributeFallback opts a (JBool True) st = Inr st' \<and>
             map_of (attrs st') a = Some [])"
    by (simp add: attributeFallback_eq toAttributeValueOf_def defaultToAttributeValue_def
        js_nullish_def js_assign_same)
  from 1 2 3 4 5 6 7 8 show ?thesis by (intro conjI)
qed

text \<open>The values of the test suite: a handler, the metadata object, a number and \<^verbatim>\<open>null\<close>;
  \<^verbatim>\<open>human = false\<close> adds no attribute, \<^verbatim>\<open>human = true\<close> adds \<^verbatim>\<open>human=""\<close>.\<close>

theorem default_attribute_value_witness:
  "defaultToAttributeValue handler1 = JUndefined \<and>
   defaultToAttributeValue metadataObject = JUndefined \<and>
   defaultToAttributeValue (JNum ''38'') = JNum ''38'' \<and>
   defaultToAttributeValue JNull = JNull \<and>
   (\<exists>st'. attributeFallback (MyProfileOptions 18) ''human'' (JBool False) no_props = Inr st' \<and>
          attrs st' = attrs no_props) \<and>
   (\<exists>st'. attributeFallback (MyProfileOptions 18) ''human'' (JBool True) no_props = Inr st' \<and>
          map_of (attrs st') ''human'' = Some [])"
proof -
  have f: "js_typeof handler1 = TFunction" by (simp add: handler1_def)
  have ob: "js_typeof metadataObject = TObject" "metadataObject \<noteq> JNull"
    by (simp_all add: metadataObject_def)
  have n: "js_typeof (JNum ''38'') \<notin> {TBoolean, TFunction, TObject} \<or> JNum ''38'' = JNull" by simp
  have z: "js_typeof JNull \<notin> {TBoolean, TFunction, TObject} \<or> JNull = JNull" by simp
  have d: "toAttributeValue (MyProfileOptions 18) = None" by (simp add: MyProfileOptions_def)
  have u: "js_nullish (toAttributeValueOf (MyProfileOptions 18) (JBool False))" by code_simp
  have a: "''human'' \<noteq> []" "''human'' \<noteq> ''__proto__''" by simp_all
  note c7 = default_attribute_value [where opts = "MyProfileOptions 18" and a = "''human''"
      and st = no_props, THEN conjunct2, THEN conjunct2, THEN conjunct2, THEN conjunct2,
      THEN conjunct2, THEN conjunct2]
  from default_attribute_value [where v = handler1, THEN conjunct2, THEN conjunct2,
      THEN conjunct1, rule_format, OF f]
    default_attribute_value [where v = metadataObject, THEN conjunct2, THEN conjunct2,
      THEN conjunct2, THEN conjunct1, rule_format, OF ob]
    default_attribute_value [where v = "JNum ''38''", THEN conjunct2, THEN conjunct2,
      THEN conjunct2, THEN conjunct2, THEN conjunct1, rule_format, OF n]
    default_attribute_value [where v = JNull, THEN conjunct2, THEN conjunct2,
      THEN conjunct2, THEN conjunct2, THEN conjunct1, rule_format, OF z]
    c7 [THEN conjunct1, rule_format, OF u]
    c7 [THEN conjunct2, rule_format, OF d a]
  show ?thesis by (intro conjI)
qed

subsection \<open>C10: an empty attribute name\<close>

lemma not_in_subset_insert: "S \<subseteq> insert a T \<Longrightarrow> x \<noteq> a \<Longrightarrow> x \<notin> T \<Longrightarrow> x \<notin> S"
  by blast

lemma entry_no_empty_key:
  assumes "classify_entry env opts (k, v) st = Inr st'"
    and "[] \<notin> fst ` set (attrs st)" and "[] \<notin> fst ` set (reactProps st)"
  shows "[] \<notin> fst ` set (attrs st') \<and> [] \<notin> fst ` set (reactProps st')"
  using assms(1)
proof (cases rule: entry_cases)
  case to_reserved
  from to_reserved(1) have "k \<in> set reservedReactProps" by (simp add: reserved_dest)
  then have "k \<noteq> []" by (auto simp: reservedReactProps_def)
  with to_reserved(2) assms(2,3) show ?thesis by (simp add: js_assign_keys)
next
  case to_property
  with assms(2,3) show ?thesis by simp
next
  case to_event
  with assms(2,3) show ?thesis by simp
next
  case (to_attribute a)
  show ?thesis
  proof (cases "a = []")
    case True
    with to_attribute(3) assms(2,3) show ?thesis by (simp add: attributeFallback_eq)
  next
    case False
    then have ne: "[] \<noteq> a" by simp
    note f = attributeFallback_frame [OF to_attribute(3), THEN conjunct2, THEN conjunct2]
    from not_in_subset_insert [OF f [THEN conjunct1] ne assms(2)]
      not_in_subset_insert [OF f [THEN conjunct2, THEN conjunct1] ne assms(3)]
    show ?thesis by (intro conjI)
  qed
qed

lemma loop_no_empty_key:
  "classify_loop env opts props st = Inr r \<Longrightarrow>
   [] \<notin> fst ` set (attrs st) \<Longrightarrow> [] \<notin> fst ` set (reactProps st) \<Longrightarrow>
   [] \<notin> fst ` set (attrs r) \<and> [] \<notin> fst ` set (reactProps r)"
proof (induction props arbitrary: st)
  case Nil
  then show ?case by simp
next
  case (Cons kv kvs)
  obtain k' v' where kv: "kv = (k', v')" by (cases kv)
  from Cons.prems(1) kv obtain st' where
    e: "classify_entry env opts (k', v') st = Inr st'" and l: "classify_loop env opts kvs st' = Inr r"
    by (auto split: sum.splits)
  from entry_no_empty_key [OF e Cons.prems(2,3)]
  have "[] \<notin> fst ` set (attrs st')" "[] \<notin> fst ` set (reactProps st')" by simp_all
  then show ?case by (rule Cons.IH [OF l])
qed

text \<open>
  Claim C10. A prop that falls through to the attribute rule and for whose name the naming
  policy returns the empty string leaves the classification as it was, whatever its value
  and whatever the version of React; and no classification that completes has the empty
  string as a key of the attribute set or of the creation arguments.
\<close>

theorem empty_attribute_name:
  "(k \<notin> set reservedReactProps \<longrightarrow> attrNameOf env opts k = Inr [] \<longrightarrow>
      \<not> isElementProperty env opts k [] \<longrightarrow> \<not> startsWith k ''on'' \<longrightarrow>
      classify_entry env opts (k, v) st = Inr st) \<and>
   (classify env opts props = Inr c \<longrightarrow>
      [] \<notin> fst ` set (attrs c) \<and> [] \<notin> fst ` set (reactProps c))"
proof -
  have 1: "k \<notin> set reservedReactProps \<longrightarrow> attrNameOf env opts k = Inr [] \<longrightarrow>
      \<not> isElementProperty env opts k [] \<longrightarrow> \<not> startsWith k ''on'' \<longrightarrow>
      classify_entry env opts (k, v) st = Inr st"
    by (simp add: classify_entry_def attributeFallback_eq)
  have 2: "classify env opts props = Inr c \<longrightarrow>
      [] \<notin> fst ` set (attrs c) \<and> [] \<notin> fst ` set (reactProps c)"
    unfolding classify_def
    by (intro impI, erule loop_no_empty_key) (simp_all add: no_props_def)
  from 1 2 show ?thesis by (intro conjI)
qed

text \<open>With the policy \<open>skipUnderscored\<close> the prop \<^verbatim>\<open>_internal\<close> is dropped by React 18 and by
  React 19.\<close>

theorem empty_attribute_name_witness:
  "classify_entry browserEnv (SkippingOptions 18) (''_internal'', JStr ''x'') testClassification =
     Inr testClassification \<and>
   classify_entry browserEnv (SkippingOptions 19) (''_internal'', JStr ''x'') testClassification =
     Inr testClassification \<and>
   classify browserEnv (SkippingOptions 19) [(''_internal'', JStr ''x''), (''age'', JNum ''38'')] =
     Inr \<lparr>eventProps = [], attrs = [(''age'', ''38'')],
          reactProps = [(''age'', RVal (JNum ''38''))], elementProps = []\<rparr> \<and>
   [] \<notin> fst ` set [(''age'', ''38'')]"
proof -
  have r: "''_internal'' \<notin> set reservedReactProps" by (simp add: reservedReactProps_def)
  have a: "attrNameOf browserEnv (SkippingOptions 18) ''_internal'' = Inr []"
    "attrNameOf browserEnv (SkippingOptions 19) ''_internal'' = Inr []"
    by code_simp+
  have p: "\<not> isElementProperty browserEnv (SkippingOptions 18) ''_internal'' []"
    "\<not> isElementProperty browserEnv (SkippingOptions 19) ''_internal'' []"
    by code_simp+
  have on: "\<not> startsWith ''_internal'' ''on''" by (simp add: startsWith_def)
  have c: "classify browserEnv (SkippingOptions 19) [(''_internal'', JStr ''x''), (''age'', JNum ''38'')] =
     Inr \<lparr>eventProps = [], attrs = [(''age'', ''38'')],
          reactProps = [(''age'', RVal (JNum ''38''))], elementProps = []\<rparr>"
    by code_simp
  from empty_attribute_name [THEN conjunct1, rule_format, OF r a(1) p(1) on]
    empty_attribute_name [THEN conjunct1, rule_format, OF r a(2) p(2) on]
    c empty_attribute_name [THEN conjunct2, rule_format, OF c, THEN conjunct1]
  show ?thesis by simp
qed
subsection \<open>C4: the synchronisation of the element properties\<close>

lemma update_fresh: "k \<notin> fst ` set al \<Longrightarrow> AList.update k v al = al @ [(k, v)]"
  by (induction al) auto

lemma delete_then_filter:
  "filter (\<lambda>kv. fst kv \<notin> S) (AList.delete k al) = filter (\<lambda>kv. fst kv \<notin> insert k S) al"
  by (induction al) (auto simp: AList.delete_eq)

lemma assignElementProps_eq:
  "assignElementProps env node eps prev new =
     (concat (map (\<lambda>kv. setProperty env node (fst kv) (snd kv)) eps),
      filter (\<lambda>kv. fst kv \<notin> fst ` set eps) prev,
      fold (\<lambda>kv. AList.update (fst kv) (snd kv)) eps new)"
proof (induction eps arbitrary: prev new)
  case Nil
  then show ?case by simp
next
  case (Cons kv eps)
  obtain k v where kv: "kv = (k, v)" by (cases kv)
  show ?case
    unfolding kv by (simp add: Cons.IH delete_then_filter)
qed

lemma fold_update_fresh:
  "distinct (map fst eps) \<Longrightarrow> fst ` set eps \<inter> fst ` set new = {} \<Longrightarrow>
   fold (\<lambda>kv. AList.update (fst kv) (snd kv)) eps new = new @ eps"
proof (induction eps arbitrary: new)
  case Nil
  then show ?case by simp
next
  case (Cons kv eps)
  from Cons.prems(2) have fresh: "fst kv \<notin> fst ` set new" by auto
  have "fst ` set eps \<inter> fst ` set (new @ [(fst kv, snd kv)]) = {}"
    using Cons.prems by auto
  with Cons.IH [of "new @ [(fst kv, snd kv)]"] Cons.prems(1) fresh
  show ?case by (simp add: update_fresh)
qed

lemma unsetElementProps_eq:
  "unsetElementProps env node prev =
     concat (map (\<lambda>kv. setProperty env node (fst kv) JUndefined) prev)"
  by (induction prev) auto

lemma syncProperties_eq:
  assumes "distinct (map fst elemProps)"
  shows "syncProperties env (Some node) elemProps prev =
     (concat (map (\<lambda>kv. setProperty env node (fst kv) (snd kv)) elemProps) @
      concat (map (\<lambda>kv. setProperty env node (fst kv) JUndefined)
                (filter (\<lambda>kv. fst kv \<notin> fst ` set elemProps) prev)),
      elemProps)"
  using fold_update_fresh [OF assms, of "[]"]
  by (simp add: syncProperties_def assignElementProps_eq unsetElementProps_eq)

lemma setProperty_ops:
  "op \<in> set (setProperty env node k v) \<longleftrightarrow>
     op = SetProperty node k v \<or>
     (op = RemoveAttribute node k \<and> js_nullish v \<and> in_HTMLElement_prototype env k)"
  by (auto simp: setProperty_def)

lemma sync_ops:
  assumes "distinct (map fst elemProps)"
  shows "op \<in> set (fst (syncProperties env (Some node) elemProps prev)) \<longleftrightarrow>
     (\<exists>k v. (k, v) \<in> set elemProps \<and> op \<in> set (setProperty env node k v)) \<or>
     (\<exists>k. k \<in> fst ` set prev - fst ` set elemProps \<and> op \<in> set (setProperty env node k JUndefined))"
  unfolding syncProperties_eq [OF assms] by (simp; force)

lemma loop_elementProps_distinct:
  "classify_loop env opts props st = Inr r \<Longrightarrow> distinct (map fst (elementProps st)) \<Longrightarrow>
   distinct (map fst (elementProps r))"
proof (induction props arbitrary: st)
  case Nil
  then show ?case by simp
next
  case (Cons kv kvs)
  obtain k' v' where kv: "kv = (k', v')" by (cases kv)
  from Cons.prems(1) kv obtain st' where
    e: "classify_entry env opts (k', v') st = Inr st'" and l: "classify_loop env opts kvs st' = Inr r"
    by (auto split: sum.splits)
  from entry_elementProps [OF e] Cons.prems(2) have "distinct (map fst (elementProps st'))"
    by (simp add: js_assign_def AList.distinct_update)
  then show ?case by (rule Cons.IH [OF l])
qed

lemma classify_elementProps_distinct:
  "classify env opts props = Inr c \<Longrightarrow> distinct (map fst (elementProps c))"
  unfolding classify_def by (erule loop_elementProps_distinct) (simp add: no_props_def)

text \<open>
  Claim C4. The effect of lines 274-291, run with a live element: every entry of this
  render's element properties is assigned to the element; every key of the previous
  render's set that this render's set lacks is assigned \<^verbatim>\<open>undefined\<close>; the stored set
  becomes this render's set; and whenever the value assigned is \<^verbatim>\<open>null\<close> or \<^verbatim>\<open>undefined\<close>
  and the name is a property of the \<^verbatim>\<open>HTMLElement\<close> prototype, the attribute of that name is
  removed. The effect does nothing else to the element. In an update of a mounted
  component in the browser these operations end the commit, and the instance keeps this
  render's set.
\<close>

theorem property_sync:
  assumes "distinct (map fst elemProps)"
    and "syncProperties env (Some node) elemProps prev = (ops, prev')"
  shows "(\<forall>(k, v) \<in> set elemProps. SetProperty node k v \<in> set ops) \<and>
         (\<forall>k \<in> fst ` set prev - fst ` set elemProps. SetProperty node k JUndefined \<in> set ops) \<and>
         prev' = elemProps \<and>
         (\<forall>k \<in> fst ` set prev - fst ` set elemProps.
            in_HTMLElement_prototype env k \<longrightarrow> RemoveAttribute node k \<in> set ops) \<and>
         (\<forall>(k, v) \<in> set elemProps.
            js_nullish v \<longrightarrow> in_HTMLElement_prototype env k \<longrightarrow> RemoveAttribute node k \<in> set ops) \<and>
         (\<forall>n k v. SetProperty n k v \<in> set ops \<longrightarrow>
            n = node \<and>
            ((k, v) \<in> set elemProps \<or>
             v = JUndefined \<and> k \<in> fst ` set prev - fst ` set elemProps)) \<and>
         (\<forall>n k. RemoveAttribute n k \<in> set ops \<longrightarrow>
            n = node \<and> in_HTMLElement_prototype env k \<and>
            ((\<exists>v. (k, v) \<in> set elemProps \<and> js_nullish v) \<or>
             k \<in> fst ` set prev - fst ` set elemProps)) \<and>
         (\<forall>n e cb cap. AddEventListener n e cb cap \<notin> set ops \<and>
            RemoveEventListener n e cb cap \<notin> set ops) \<and>
         (windowDefined env \<longrightarrow> elementRef inst = Some node \<longrightarrow>
            classify env opts props = Inr c \<longrightarrow> elemProps = elementProps c \<longrightarrow>
            prev = prevElemPropsRef inst \<longrightarrow>
            length (eventProps c) = length (eventSlots inst) \<longrightarrow>
            (\<exists>inst' before. update env opts inst props = Inr (inst', before @ ops) \<and>
               prevElemPropsRef inst' = elementProps c))"
proof -
  note mem = sync_ops [OF assms(1), of _ env node prev, unfolded assms(2) fst_conv setProperty_ops]
  have 1: "\<forall>(k, v) \<in> set elemProps. SetProperty node k v \<in> set ops"
    unfolding mem by (auto simp: js_nullish_def)
  have 2: "\<forall>k \<in> fst ` set prev - fst ` set elemProps. SetProperty node k JUndefined \<in> set ops"
    unfolding mem by (auto simp: js_nullish_def)
  have 3: "prev' = elemProps"
    using assms(2) unfolding syncProperties_eq [OF assms(1)] by simp
  have 4: "\<forall>k \<in> fst ` set prev - fst ` set elemProps.
            in_HTMLElement_prototype env k \<longrightarrow> RemoveAttribute node k \<in> set ops"
    unfolding mem by (auto simp: js_nullish_def)
  have 5: "\<forall>(k, v) \<in> set elemProps.
            js_nullish v \<longrightarrow> in_HTMLElement_prototype env k \<longrightarrow> RemoveAttribute node k \<in> set ops"
    unfolding mem by (auto simp: js_nullish_def)
  have 6: "\<forall>n k v. SetProperty n k v \<in> set ops \<longrightarrow>
            n = node \<and>
            ((k, v) \<in> set elemProps \<or>
             v = JUndefined \<and> k \<in> fst ` set prev - fst ` set elemProps)"
    unfolding mem by (auto simp: js_nullish_def)
  have 7: "\<forall>n k. RemoveAttribute n k \<in> set ops \<longrightarrow>
            n = node \<and> in_HTMLElement_prototype env k \<and>
            ((\<exists>v. (k, v) \<in> set elemProps \<and> js_nullish v) \<or>
             k \<in> fst ` set prev - fst ` set elemProps)"
    unfolding mem by (auto simp: js_nullish_def)
  have 8: "\<forall>n e cb cap. AddEventListener n e cb cap \<notin> set ops \<and>
            RemoveEventListener n e cb cap \<notin> set ops"
    unfolding mem by (auto simp: js_nullish_def)
  have 9: "windowDefined env \<longrightarrow> elementRef inst = Some node \<longrightarrow>
            classify env opts props = Inr c \<longrightarrow> elemProps = elementProps c \<longrightarrow>
            prev = prevElemPropsRef inst \<longrightarrow>
            length (eventProps c) = length (eventSlots inst) \<longrightarrow>
            (\<exists>inst' before. update env opts inst props = Inr (inst', before @ ops) \<and>
               prevElemPropsRef inst' = elementProps c)"
  proof (intro impI)
    assume w: "windowDefined env" and r: "elementRef inst = Some node"
      and c: "classify env opts props = Inr c" and e: "elemProps = elementProps c"
      and p: "prev = prevElemPropsRef inst"
      and True: "length (eventProps c) = length (eventSlots inst)"
    show "\<exists>inst' before. update env opts inst props = Inr (inst', before @ ops) \<and>
               prevElemPropsRef inst' = elementProps c"
    proof -
      obtain cleanups evops slots where u:
        "updateEventEffects (Some node) (eventSlots inst)
           (eventEffects env opts (Some node) (eventProps c)) = (cleanups, evops, slots)"
        by (cases "updateEventEffects (Some node) (eventSlots inst)
           (eventEffects env opts (Some node) (eventProps c))") auto
      from assms(2) e p 3
      have s: "syncProperties env (Some node) (elementProps c) (prevElemPropsRef inst) =
          (ops, elementProps c)"
        by simp
      have upd: "update env opts inst props =
          Inr (inst\<lparr>prevElemPropsRef := elementProps c, eventSlots := slots\<rparr>,
               (cleanups @ evops) @ ops)"
        using w r c True u s
        by (simp add: update_def ReactComponent_def runPropertyEffect_def eventEffects_def)
      have sel: "prevElemPropsRef (inst\<lparr>prevElemPropsRef := elementProps c, eventSlots := slots\<rparr>) =
          elementProps c"
        by simp
      from upd sel show ?thesis by (intro exI conjI)
    qed
  qed
  from 1 2 3 4 5 6 7 8 9 show ?thesis by (intro conjI)
qed

text \<open>
  An element that loses \<^verbatim>\<open>draggable\<close> and \<^verbatim>\<open>payload\<close> and gets \<^verbatim>\<open>id = null\<close>; and the
  element of the test suite re-rendered without \<^verbatim>\<open>metadata\<close>.
\<close>

theorem property_sync_witness:
  "syncProperties browserEnv (Some 7)
     [(''metadata'', metadataObject), (''id'', JNull)]
     [(''metadata'', JNum ''1''), (''draggable'', JBool True), (''payload'', JNum ''2'')] =
     ([SetProperty 7 ''metadata'' metadataObject,
       SetProperty 7 ''id'' JNull, RemoveAttribute 7 ''id'',
       SetProperty 7 ''draggable'' JUndefined, RemoveAttribute 7 ''draggable'',
       SetProperty 7 ''payload'' JUndefined],
      [(''metadata'', metadataObject), (''id'', JNull)]) \<and>
   (\<exists>inst' before.
      update browserEnv (MyProfileOptions 19)
        \<lparr>elementRef = Some 7, prevElemPropsRef = [(''metadata'', metadataObject)], eventSlots = []\<rparr>
        [(''age'', JNum ''39'')] =
        Inr (inst', before @ [SetProperty 7 ''metadata'' JUndefined]) \<and>
      prevElemPropsRef inst' = [])"
proof -
  have d: "distinct (map fst [(''metadata'', metadataObject), (''id'', JNull)])" by simp
  have s: "syncProperties browserEnv (Some 7)
     [(''metadata'', metadataObject), (''id'', JNull)]
     [(''metadata'', JNum ''1''), (''draggable'', JBool True), (''payload'', JNum ''2'')] =
     ([SetProperty 7 ''metadata'' metadataObject,
       SetProperty 7 ''id'' JNull, RemoveAttribute 7 ''id'',
       SetProperty 7 ''draggable'' JUndefined, RemoveAttribute 7 ''draggable'',
       SetProperty 7 ''payload'' JUndefined],
      [(''metadata'', metadataObject), (''id'', JNull)])"
    by code_simp
  have d': "distinct (map fst ([] :: jsval jsobject))" by simp
  have s': "syncProperties browserEnv (Some 7) [] [(''metadata'', metadataObject)] =
      ([SetProperty 7 ''metadata'' JUndefined], [])"
    by code_simp
  have c: "classify browserEnv (MyProfileOptions 19) [(''age'', JNum ''39'')] =
      Inr \<lparr>eventProps = [], attrs = [(''age'', ''39'')],
           reactProps = [(''age'', RVal (JNum ''39''))], elementProps = []\<rparr>"
    by code_simp
  have w: "windowDefined browserEnv" by (simp add: browserEnv_def)
  note t = property_sync [OF d s]
  note u = property_sync [OF d' s', THEN conjunct2, THEN conjunct2, THEN conjunct2,
      THEN conjunct2, THEN conjunct2, THEN conjunct2, THEN conjunct2, THEN conjunct2, rule_format,
      where inst = "\<lparr>elementRef = Some 7, prevElemPropsRef = [(''metadata'', metadataObject)],
        eventSlots = []\<rparr>", OF w _ c]
  from u have "\<exists>inst' before.
      update browserEnv (MyProfileOptions 19)
        \<lparr>elementRef = Some 7, prevElemPropsRef = [(''metadata'', metadataObject)], eventSlots = []\<rparr>
        [(''age'', JNum ''39'')] =
        Inr (inst', before @ [SetProperty 7 ''metadata'' JUndefined]) \<and>
      prevElemPropsRef inst' = []"
    by simp
  with t s show ?thesis by (intro conjI)
qed
subsection \<open>C8: rendering off the browser\<close>


subsection \<open>C7: event listeners\<close>

lemma isAscii_append: "isAscii (xs @ ys) = (isAscii xs \<and> isAscii ys)"
  by (simp add: isAscii_def)

lemma isAscii_Capture: "isAscii ''Capture''"
  by (simp add: isAscii_def)

lemma toLowerCase_ascii: "isAscii xs \<Longrightarrow> toLowerCase env xs = asciiLowerCase xs"
  by (simp add: toLowerCase_def)

lemma asciiLowerCase_append: "asciiLowerCase (xs @ ys) = asciiLowerCase xs @ asciiLowerCase ys"
  by (simp add: asciiLowerCase_def)

lemma length_asciiLowerCase: "length (asciiLowerCase xs) = length xs"
  by (simp add: asciiLowerCase_def)

lemma endsWith_append: "endsWith (xs @ ys) ys"
  by (simp add: endsWith_def)

lemma eventNameOf_unmapped_capture:
  assumes "p = ''on'' @ x @ ''Capture''"
    and "(case events opts of None \<Rightarrow> None | Some m \<Rightarrow> map_of m p) = None"
    and "isAscii x"
  shows "eventNameOf env opts p = toLowerCase env x"
proof -
  have e: "endsWith p ''Capture''"
    using endsWith_append [of "''on'' @ x" "''Capture''"] assms(1) by simp
  have d: "drop 2 p = x @ ''Capture''"
    using assms(1) by simp
  have a: "isAscii (x @ ''Capture'')"
    using assms(3) by (simp add: isAscii_append isAscii_Capture)
  have "slice_off_end (toLowerCase env (x @ ''Capture'')) 7 = toLowerCase env x"
    by (simp add: toLowerCase_ascii [OF a] toLowerCase_ascii [OF assms(3)] slice_off_end_def
        asciiLowerCase_append length_asciiLowerCase)
  with assms(2) e d show ?thesis
    by (simp add: eventNameOf_def Let_def)
qed

lemma mountEventEffect_function:
  "js_typeof (ef_callback ef) = TFunction \<Longrightarrow>
   mountEventEffect (Some n) ef =
     ([AddEventListener n (ef_eventName ef) (ef_callback ef) (ef_useCapture ef)],
      \<lparr>es_deps = ef_deps ef,
       es_cleanup =
         Some (RemoveEventListener n (ef_eventName ef) (ef_callback ef) (ef_useCapture ef))\<rparr>)"
  by (simp add: mountEventEffect_def runEventEffect_def)

lemma mountEventEffect_ignored:
  "r = None \<or> js_typeof (ef_callback ef) \<noteq> TFunction \<Longrightarrow>
   mountEventEffect r ef = ([], \<lparr>es_deps = ef_deps ef, es_cleanup = None\<rparr>)"
  by (auto simp: mountEventEffect_def runEventEffect_def split: option.splits)

lemma updateEventEffects_nth:
  "length ss = length efs \<Longrightarrow> updateEventEffects r ss efs = (cl, ops, slots) \<Longrightarrow>
   i < length efs \<Longrightarrow>
   length slots = length efs \<and>
   (es_deps (ss ! i) = ef_deps (efs ! i) \<longrightarrow> slots ! i = ss ! i) \<and>
   (es_deps (ss ! i) \<noteq> ef_deps (efs ! i) \<longrightarrow>
      set (runCleanup (ss ! i)) \<subseteq> set cl \<and>
      set (fst (mountEventEffect r (efs ! i))) \<subseteq> set ops \<and>
      slots ! i = snd (mountEventEffect r (efs ! i)))"
proof (induction ss efs arbitrary: cl ops slots i rule: list_induct2)
  case Nil
  then show ?case by simp
next
  case (Cons s ss ef efs)
  obtain cl' ops' slots' where rest: "updateEventEffects r ss efs = (cl', ops', slots')"
    by (cases "updateEventEffects r ss efs") auto
  obtain mops ms where m: "mountEventEffect r ef = (mops, ms)"
    by (cases "mountEventEffect r ef") auto
  from Cons.prems(1) rest m
  have parts: "cl = (if es_deps s = ef_deps ef then cl' else runCleanup s @ cl')"
    "ops = (if es_deps s = ef_deps ef then ops' else mops @ ops')"
    "slots = (if es_deps s = ef_deps ef then s # slots' else ms # slots')"
    by (auto split: if_splits)
  show ?case
  proof (cases i)
    case 0
    have "length slots' = length efs"
    proof (cases efs)
      case Nil
      with Cons.hyps rest show ?thesis by simp
    next
      case (Cons e es)
      with Cons.IH [OF rest, of 0] show ?thesis by simp
    qed
    with 0 parts m show ?thesis by simp
  next
    case (Suc j)
    with Cons.prems(2) have j: "j < length efs" by simp
    from Cons.IH [OF rest j] Suc parts show ?thesis by auto
  qed
qed

lemma in_concat: "xs \<in> set xss \<Longrightarrow> x \<in> set xs \<Longrightarrow> x \<in> set (concat xss)"
  by auto

lemma eventEffects_nth:
  "i < length evProps \<Longrightarrow> evProps ! i = (p, cb) \<Longrightarrow>
   eventEffects env opts r evProps ! i =
     \<lparr>ef_eventName = eventNameOf env opts p, ef_callback = cb,
      ef_useCapture = endsWith p ''Capture'', ef_deps = (r, cb)\<rparr>"
  by (simp add: eventEffects_def)

lemma mount_adds_listener:
  assumes "windowDefined env" and "classify env opts props = Inr c"
    and "(p, cb) \<in> set (eventProps c)" and "js_typeof cb = TFunction"
  shows "\<exists>inst ops. mount env opts node props = Inr (inst, ops) \<and>
           AddEventListener node (eventNameOf env opts p) cb (endsWith p ''Capture'') \<in> set ops"
proof -
  define efs where "efs = eventEffects env opts None (eventProps c)"
  define ef where "ef = \<lparr>ef_eventName = eventNameOf env opts p, ef_callback = cb,
      ef_useCapture = endsWith p ''Capture'', ef_deps = (None :: nat option, cb)\<rparr>"
  from assms(3) obtain i where i: "i < length (eventProps c)" "eventProps c ! i = (p, cb)"
    unfolding in_set_conv_nth by blast
  have len: "length efs = length (eventProps c)" by (simp add: efs_def eventEffects_def)
  have "efs ! i = ef" unfolding efs_def ef_def by (rule eventEffects_nth [OF i])
  with i(1) len have "ef \<in> set efs" by (metis nth_mem)
  then have "(fst \<circ> mountEventEffect (Some node)) ef \<in>
      (fst \<circ> mountEventEffect (Some node)) ` set efs"
    by (rule imageI)
  then have inner: "fst (mountEventEffect (Some node) ef) \<in>
      set (map fst (map (mountEventEffect (Some node)) efs))"
    by simp
  from assms(4) have "fst (mountEventEffect (Some node) ef) =
      [AddEventListener node (eventNameOf env opts p) cb (endsWith p ''Capture'')]"
    by (simp add: mountEventEffect_function ef_def)
  then have "AddEventListener node (eventNameOf env opts p) cb (endsWith p ''Capture'')
      \<in> set (fst (mountEventEffect (Some node) ef))"
    by simp
  with inner have mem: "AddEventListener node (eventNameOf env opts p) cb (endsWith p ''Capture'')
      \<in> set (concat (map fst (map (mountEventEffect (Some node)) efs)))"
    by (rule in_concat)
  obtain pops prev where pe:
    "runPropertyEffect env (Some node) (Some (elementProps c)) [] = (pops, prev)"
    by (cases "runPropertyEffect env (Some node) (Some (elementProps c)) []") auto
  from assms(1,2) pe have "mount env opts node props =
      Inr (\<lparr>elementRef = Some node, prevElemPropsRef = prev,
            eventSlots = map snd (map (mountEventEffect (Some node)) efs)\<rparr>,
           concat (map fst (map (mountEventEffect (Some node)) efs)) @ pops)"
    by (simp add: mount_def ReactComponent_def efs_def Let_def)
  moreover from mem
  have "AddEventListener node (eventNameOf env opts p) cb (endsWith p ''Capture'')
      \<in> set (concat (map fst (map (mountEventEffect (Some node)) efs)) @ pops)"
    by simp
  ultimately show ?thesis by (intro exI conjI)
qed

lemma update_replaces_listener:
  assumes "windowDefined env" and "classify env opts props = Inr c"
    and "length (eventProps c) = length (eventSlots inst)"
    and "i < length (eventProps c)" and "eventProps c ! i = (p, cb)"
    and "es_deps (eventSlots inst ! i) \<noteq> (elementRef inst, cb)"
  shows "\<exists>inst' before after.
           update env opts inst props = Inr (inst', before @ after) \<and>
           set (runCleanup (eventSlots inst ! i)) \<subseteq> set before \<and>
           (\<forall>n. elementRef inst = Some n \<longrightarrow> js_typeof cb = TFunction \<longrightarrow>
              AddEventListener n (eventNameOf env opts p) cb (endsWith p ''Capture'') \<in> set after \<and>
              es_cleanup (eventSlots inst' ! i) =
                Some (RemoveEventListener n (eventNameOf env opts p) cb (endsWith p ''Capture''))) \<and>
           (elementRef inst = None \<or> js_typeof cb \<noteq> TFunction \<longrightarrow>
              es_cleanup (eventSlots inst' ! i) = None)"
proof -
  define efs where "efs = eventEffects env opts (elementRef inst) (eventProps c)"
  define ef where "ef = \<lparr>ef_eventName = eventNameOf env opts p, ef_callback = cb,
      ef_useCapture = endsWith p ''Capture'', ef_deps = (elementRef inst, cb)\<rparr>"
  have len: "length (eventSlots inst) = length efs"
    using assms(3) by (simp add: efs_def eventEffects_def)
  have i: "i < length efs" using assms(4) by (simp add: efs_def eventEffects_def)
  have nth: "efs ! i = ef"
    unfolding efs_def ef_def by (rule eventEffects_nth [OF assms(4,5)])
  obtain cl evops slots where u:
    "updateEventEffects (elementRef inst) (eventSlots inst) efs = (cl, evops, slots)"
    by (cases "updateEventEffects (elementRef inst) (eventSlots inst) efs") auto
  obtain pops prev where pe:
    "runPropertyEffect env (elementRef inst) (Some (elementProps c)) (prevElemPropsRef inst) =
       (pops, prev)"
    by (cases "runPropertyEffect env (elementRef inst) (Some (elementProps c))
        (prevElemPropsRef inst)") auto
  from assms(6) nth have changed: "es_deps (eventSlots inst ! i) \<noteq> ef_deps (efs ! i)"
    by (simp add: ef_def)
  from updateEventEffects_nth [OF len u i] changed
  have cleanup: "set (runCleanup (eventSlots inst ! i)) \<subseteq> set cl"
    and added: "set (fst (mountEventEffect (elementRef inst) ef)) \<subseteq> set evops"
    and slot: "slots ! i = snd (mountEventEffect (elementRef inst) ef)"
    unfolding nth by simp_all
  define inst' where "inst' = inst\<lparr>prevElemPropsRef := prev, eventSlots := slots\<rparr>"
  have upd: "update env opts inst props = Inr (inst', cl @ (evops @ pops))"
    using assms(1,2) len u pe
    by (simp add: update_def ReactComponent_def efs_def inst'_def)
  have sel: "eventSlots inst' ! i = slots ! i"
    by (simp add: inst'_def)
  have fn: "\<forall>n. elementRef inst = Some n \<longrightarrow> js_typeof cb = TFunction \<longrightarrow>
      AddEventListener n (eventNameOf env opts p) cb (endsWith p ''Capture'') \<in> set (evops @ pops) \<and>
      es_cleanup (eventSlots inst' ! i) =
        Some (RemoveEventListener n (eventNameOf env opts p) cb (endsWith p ''Capture''))"
  proof (intro allI impI)
    fix n assume n: "elementRef inst = Some n" and f: "js_typeof cb = TFunction"
    from f have "js_typeof (ef_callback ef) = TFunction" by (simp add: ef_def)
    from mountEventEffect_function [OF this, of n] added slot n
    show "AddEventListener n (eventNameOf env opts p) cb (endsWith p ''Capture'') \<in> set (evops @ pops) \<and>
      es_cleanup (eventSlots inst' ! i) =
        Some (RemoveEventListener n (eventNameOf env opts p) cb (endsWith p ''Capture''))"
      unfolding sel by (simp add: ef_def)
  qed
  have nofn: "elementRef inst = None \<or> js_typeof cb \<noteq> TFunction \<longrightarrow>
      es_cleanup (eventSlots inst' ! i) = None"
  proof
    assume "elementRef inst = None \<or> js_typeof cb \<noteq> TFunction"
    then have "elementRef inst = None \<or> js_typeof (ef_callback ef) \<noteq> TFunction"
      by (simp add: ef_def)
    from mountEventEffect_ignored [OF this] slot show "es_cleanup (eventSlots inst' ! i) = None"
      unfolding sel by simp
  qed
  from upd cleanup fn nofn show ?thesis
    by (intro exI conjI)
qed

lemma unmount_detaches:
  "unmount inst = (inst', ops) \<Longrightarrow>
   ops = concat (map runCleanup (eventSlots inst)) \<and> elementRef inst' = None \<and>
   (\<forall>s \<in> set (eventSlots inst'). es_cleanup s = None) \<and>
   (\<forall>s \<in> set (eventSlots inst). \<forall>old. es_cleanup s = Some old \<longrightarrow> old \<in> set ops)"
proof -
  assume u: "unmount inst = (inst', ops)"
  then have ops: "ops = concat (map runCleanup (eventSlots inst))"
    and inst': "inst' = inst\<lparr>elementRef := None,
        eventSlots := map (\<lambda>s. s\<lparr>es_cleanup := None\<rparr>) (eventSlots inst)\<rparr>"
    by (simp_all add: unmount_def)
  have "\<forall>s \<in> set (eventSlots inst). \<forall>old. es_cleanup s = Some old \<longrightarrow> old \<in> set ops"
  proof (intro ballI allI impI)
    fix s old assume s: "s \<in> set (eventSlots inst)" and o: "es_cleanup s = Some old"
    from o have "old \<in> set (runCleanup s)" by (simp add: runCleanup_def)
    moreover from s have "runCleanup s \<in> set (map runCleanup (eventSlots inst))" by simp
    ultimately show "old \<in> set ops" unfolding ops by (rule in_concat [rotated])
  qed
  moreover have "\<forall>s \<in> set (eventSlots inst'). es_cleanup s = None"
    unfolding inst' by simp
  moreover have "elementRef inst' = None" unfolding inst' by simp
  ultimately show ?thesis using ops by (intro conjI)
qed

lemma event_dest: "destinationOf env opts k = Some EventHandler \<Longrightarrow> startsWith k ''on''"
  by (auto simp: destinationOf_def split: sum.splits if_splits)

text \<open>
  What the event effects do. In the browser, every prop filed as an event handler has a
  name that starts with \<^verbatim>\<open>on\<close>. Its event name is the entry of the \<^verbatim>\<open>events\<close> option for the
  prop name if there is one, and otherwise the prop name without its first two characters,
  in lower case; when the prop name ends in \<^verbatim>\<open>Capture\<close> the last seven characters of that
  name are cut off and the listener is a capturing one, so that an unmapped \<^verbatim>\<open>onXCapture\<close>
  with an ASCII name \<^verbatim>\<open>X\<close> listens to \<^verbatim>\<open>x\<close>. Mounting attaches a listener with that name and
  flag for every handler that is a function. On an update the effects are matched with
  those of the previous render by position. When there are as many as before, the effect
  at a position where the handler, or the element reference read while rendering, differs
  from the one the previous render had at that position runs the pending cleanup of that
  position, which detaches the old listener, before it attaches the new handler to the
  live element and stores its cleanup. Unmounting runs every pending cleanup and leaves
  none.
\<close>

lemma event_effects:
  assumes "windowDefined env" and "classify env opts props = Inr c"
  shows "(\<forall>q h. (q, h) \<in> set (eventProps c) \<longrightarrow> startsWith q ''on'') \<and>
     eventNameOf env opts p =
       (let resolved =
              (case (case events opts of None \<Rightarrow> None | Some m \<Rightarrow> map_of m p) of
                 Some n \<Rightarrow> n
               | None \<Rightarrow> toLowerCase env (drop 2 p))
        in if endsWith p ''Capture'' then take (length resolved - 7) resolved else resolved) \<and>
     (p = ''on'' @ x @ ''Capture'' \<longrightarrow>
      (case events opts of None \<Rightarrow> None | Some m \<Rightarrow> map_of m p) = None \<longrightarrow>
      isAscii x \<longrightarrow>
        eventNameOf env opts p = toLowerCase env x) \<and>
     ((p, cb) \<in> set (eventProps c) \<longrightarrow> js_typeof cb = TFunction \<longrightarrow>
        (\<exists>inst ops. mount env opts node props = Inr (inst, ops) \<and>
           AddEventListener node (eventNameOf env opts p) cb (endsWith p ''Capture'') \<in> set ops)) \<and>
     (length (eventProps c) = length (eventSlots inst) \<longrightarrow> i < length (eventProps c) \<longrightarrow>
      eventProps c ! i = (p, cb) \<longrightarrow> es_deps (eventSlots inst ! i) \<noteq> (elementRef inst, cb) \<longrightarrow>
        (\<exists>inst' before after.
           update env opts inst props = Inr (inst', before @ after) \<and>
           set (runCleanup (eventSlots inst ! i)) \<subseteq> set before \<and>
           (\<forall>n. elementRef inst = Some n \<longrightarrow> js_typeof cb = TFunction \<longrightarrow>
              AddEventListener n (eventNameOf env opts p) cb (endsWith p ''Capture'') \<in> set after \<and>
              es_cleanup (eventSlots inst' ! i) =
                Some (RemoveEventListener n (eventNameOf env opts p) cb (endsWith p ''Capture''))) \<and>
           (elementRef inst = None \<or> js_typeof cb \<noteq> TFunction \<longrightarrow>
              es_cleanup (eventSlots inst' ! i) = None))) \<and>
     (\<forall>inst' ops. unmount inst = (inst', ops) \<longrightarrow>
        ops = concat (map runCleanup (eventSlots inst)) \<and> elementRef inst' = None \<and>
        (\<forall>s \<in> set (eventSlots inst'). es_cleanup s = None) \<and>
        (\<forall>s \<in> set (eventSlots inst). \<forall>old. es_cleanup s = Some old \<longrightarrow> old \<in> set ops))"
proof -
  from assms(2) have l: "classify_loop env opts props no_props = Inr c"
    by (simp add: classify_def)
  have 1: "\<forall>q h. (q, h) \<in> set (eventProps c) \<longrightarrow> startsWith q ''on''"
  proof (intro allI impI)
    fix q h assume "(q, h) \<in> set (eventProps c)"
    then have "fst (q, h) \<in> fst ` set (eventProps c)" by (rule imageI)
    with loop_eventProps_keys [OF l] have "destinationOf env opts q = Some EventHandler"
      by (simp add: no_props_def)
    then show "startsWith q ''on''" by (rule event_dest)
  qed
  have 2: "eventNameOf env opts p =
       (let resolved =
              (case (case events opts of None \<Rightarrow> None | Some m \<Rightarrow> map_of m p) of
                 Some n \<Rightarrow> n
               | None \<Rightarrow> toLowerCase env (drop 2 p))
        in if endsWith p ''Capture'' then take (length resolved - 7) resolved else resolved)"
    by (simp add: eventNameOf_def Let_def slice_off_end_def)
  have 3: "p = ''on'' @ x @ ''Capture'' \<longrightarrow>
      (case events opts of None \<Rightarrow> None | Some m \<Rightarrow> map_of m p) = None \<longrightarrow>
      isAscii x \<longrightarrow>
        eventNameOf env opts p = toLowerCase env x"
    by (intro impI) (rule eventNameOf_unmapped_capture)
  have 4: "(p, cb) \<in> set (eventProps c) \<longrightarrow> js_typeof cb = TFunction \<longrightarrow>
        (\<exists>inst ops. mount env opts node props = Inr (inst, ops) \<and>
           AddEventListener node (eventNameOf env opts p) cb (endsWith p ''Capture'') \<in> set ops)"
    by (intro impI) (rule mount_adds_listener [OF assms])
  have 5: "length (eventProps c) = length (eventSlots inst) \<longrightarrow> i < length (eventProps c) \<longrightarrow>
      eventProps c ! i = (p, cb) \<longrightarrow> es_deps (eventSlots inst ! i) \<noteq> (elementRef inst, cb) \<longrightarrow>
        (\<exists>inst' before after.
           update env opts inst props = Inr (inst', before @ after) \<and>
           set (runCleanup (eventSlots inst ! i)) \<subseteq> set before \<and>
           (\<forall>n. elementRef inst = Some n \<longrightarrow> js_typeof cb = TFunction \<longrightarrow>
              AddEventListener n (eventNameOf env opts p) cb (endsWith p ''Capture'') \<in> set after \<and>
              es_cleanup (eventSlots inst' ! i) =
                Some (RemoveEventListener n (eventNameOf env opts p) cb (endsWith p ''Capture''))) \<and>
           (elementRef inst = None \<or> js_typeof cb \<noteq> TFunction \<longrightarrow>
              es_cleanup (eventSlots inst' ! i) = None))"
    by (intro impI) (rule update_replaces_listener [OF assms])
  have 6: "\<forall>inst' ops. unmount inst = (inst', ops) \<longrightarrow>
        ops = concat (map runCleanup (eventSlots inst)) \<and> elementRef inst' = None \<and>
        (\<forall>s \<in> set (eventSlots inst'). es_cleanup s = None) \<and>
        (\<forall>s \<in> set (eventSlots inst). \<forall>old. es_cleanup s = Some old \<longrightarrow> old \<in> set ops)"
    by (intro allI impI) (rule unmount_detaches)
  from 1 2 3 4 5 6 show ?thesis by (intro conjI)
qed

lemma mount_test:
  "mount browserEnv (MyProfileOptions 19) 7 testProps =
     Inr (mountedProfile,
          [AddEventListener 7 ''firstname'' handler1 False,
           SetProperty 7 ''metadata'' metadataObject])"
  by code_simp

text \<open>
  The test's component: mounting attaches \<open>handler1\<close> to the event \<^verbatim>\<open>firstname\<close>; a render
  with \<open>handler2\<close> detaches \<open>handler1\<close> and then attaches \<open>handler2\<close>; unmounting detaches the
  listener; and \<^verbatim>\<open>onClickCapture\<close> names the event \<^verbatim>\<open>click\<close>.
\<close>

lemma event_effects_of_the_test:
  "mount browserEnv (MyProfileOptions 19) 7 testProps =
     Inr (mountedProfile,
          [AddEventListener 7 ''firstname'' handler1 False,
           SetProperty 7 ''metadata'' metadataObject]) \<and>
   (\<exists>inst ops. mount browserEnv (MyProfileOptions 19) 7 testProps = Inr (inst, ops) \<and>
      AddEventListener 7 ''firstname'' handler1 False \<in> set ops) \<and>
   (\<exists>inst' before after.
      update browserEnv (MyProfileOptions 19) mountedProfile testProps2 = Inr (inst', before @ after) \<and>
      RemoveEventListener 7 ''firstname'' handler1 False \<in> set before \<and>
      AddEventListener 7 ''firstname'' handler2 False \<in> set after \<and>
      es_cleanup (eventSlots inst' ! 0) = Some (RemoveEventListener 7 ''firstname'' handler2 False)) \<and>
   eventNameOf browserEnv (MyProfileOptions 19) ''onClickCapture'' = ''click'' \<and>
   snd (unmount mountedProfile) = [RemoveEventListener 7 ''firstname'' handler1 False]"
proof -
  have w: "windowDefined browserEnv" by (simp add: browserEnv_def)
  have c2: "classify browserEnv (MyProfileOptions 19) testProps2 =
      Inr (testClassification\<lparr>eventProps := [(''onFirstName'', handler2)]\<rparr>)"
    by code_simp
  note t1 = event_effects [OF w test_classification]
  note t2 = event_effects [OF w c2]
  have e1: "(''onFirstName'', handler1) \<in> set (eventProps testClassification)"
    by (simp add: testClassification_def)
  have f: "js_typeof handler1 = TFunction" "js_typeof handler2 = TFunction"
    by (simp_all add: handler1_def handler2_def)
  have n: "eventNameOf browserEnv (MyProfileOptions 19) ''onFirstName'' = ''firstname''"
    "endsWith ''onFirstName'' ''Capture'' = False"
    by code_simp+
  from t1 [where p = "''onFirstName''" and cb = handler1 and node = 7,
      THEN conjunct2, THEN conjunct2, THEN conjunct2, THEN conjunct1, rule_format, OF e1 f(1)]
  have m: "\<exists>inst ops. mount browserEnv (MyProfileOptions 19) 7 testProps = Inr (inst, ops) \<and>
      AddEventListener 7 ''firstname'' handler1 False \<in> set ops"
    unfolding n .
  have len: "length (eventProps (testClassification\<lparr>eventProps := [(''onFirstName'', handler2)]\<rparr>)) =
      length (eventSlots mountedProfile)"
    by (simp add: mountedProfile_def)
  have i: "0 < length (eventProps (testClassification\<lparr>eventProps := [(''onFirstName'', handler2)]\<rparr>))"
    by simp
  have nth: "eventProps (testClassification\<lparr>eventProps := [(''onFirstName'', handler2)]\<rparr>) ! 0 =
      (''onFirstName'', handler2)"
    by simp
  have ch: "es_deps (eventSlots mountedProfile ! 0) \<noteq> (elementRef mountedProfile, handler2)"
    by (simp add: mountedProfile_def)
  have r: "elementRef mountedProfile = Some 7" by (simp add: mountedProfile_def)
  have cl: "runCleanup (eventSlots mountedProfile ! 0) =
      [RemoveEventListener 7 ''firstname'' handler1 False]"
    by (simp add: mountedProfile_def runCleanup_def)
  from t2 [where p = "''onFirstName''" and cb = handler2 and inst = mountedProfile and i = 0,
      THEN conjunct2, THEN conjunct2, THEN conjunct2, THEN conjunct2, THEN conjunct1,
      rule_format, OF len i nth ch]
  obtain inst' before after where
    u: "update browserEnv (MyProfileOptions 19) mountedProfile testProps2 = Inr (inst', before @ after)"
    and b: "set (runCleanup (eventSlots mountedProfile ! 0)) \<subseteq> set before"
    and a: "\<forall>n. elementRef mountedProfile = Some n \<longrightarrow> js_typeof handler2 = TFunction \<longrightarrow>
              AddEventListener n (eventNameOf browserEnv (MyProfileOptions 19) ''onFirstName'') handler2
                (endsWith ''onFirstName'' ''Capture'') \<in> set after \<and>
              es_cleanup (eventSlots inst' ! 0) =
                Some (RemoveEventListener n (eventNameOf browserEnv (MyProfileOptions 19) ''onFirstName'')
                  handler2 (endsWith ''onFirstName'' ''Capture''))"
    by blast
  from b have b': "RemoveEventListener 7 ''firstname'' handler1 False \<in> set before"
    unfolding cl by simp
  from a [rule_format, OF r f(2)]
  have a': "AddEventListener 7 ''firstname'' handler2 False \<in> set after \<and>
      es_cleanup (eventSlots inst' ! 0) = Some (RemoveEventListener 7 ''firstname'' handler2 False)"
    unfolding n .
  from u b' a' have up: "\<exists>inst' before after.
      update browserEnv (MyProfileOptions 19) mountedProfile testProps2 = Inr (inst', before @ after) \<and>
      RemoveEventListener 7 ''firstname'' handler1 False \<in> set before \<and>
      AddEventListener 7 ''firstname'' handler2 False \<in> set after \<and>
      es_cleanup (eventSlots inst' ! 0) = Some (RemoveEventListener 7 ''firstname'' handler2 False)"
    by (intro exI conjI) (elim conjE, assumption)+
  have ev: "(case events (MyProfileOptions 19) of None \<Rightarrow> None
      | Some m \<Rightarrow> map_of m ''onClickCapture'') = None"
    by (simp add: MyProfileOptions_def)
  have sp: "''onClickCapture'' = ''on'' @ ''Click'' @ ''Capture''" by simp
  have asc: "isAscii ''Click''" by (simp add: isAscii_def)
  have lc: "toLowerCase browserEnv ''Click'' = ''click''" by code_simp
  from t1 [where p = "''onClickCapture''" and x = "''Click''",
      THEN conjunct2, THEN conjunct2, THEN conjunct1, rule_format, OF sp ev asc]
  have name: "eventNameOf browserEnv (MyProfileOptions 19) ''onClickCapture'' = ''click''"
    by (simp only: lc)
  obtain inst'' ops'' where un: "unmount mountedProfile = (inst'', ops'')"
    by (cases "unmount mountedProfile") auto
  from t1 [where inst = mountedProfile, THEN conjunct2, THEN conjunct2, THEN conjunct2,
      THEN conjunct2, THEN conjunct2, rule_format, OF un, THEN conjunct1] un
  have um: "snd (unmount mountedProfile) = [RemoveEventListener 7 ''firstname'' handler1 False]"
    by (simp add: mountedProfile_def runCleanup_def)
  from mount_test m up name um show ?thesis by (intro conjI)
qed

text \<open>
  Claim C7 says that a re-render with a new handler identity for an event prop detaches
  the old listener and attaches the new one. The code aims at that with the dependency
  array \<^verbatim>\<open>[elementRef?.current, callback]\<close> of line 269, but the effect also reads
  \<^verbatim>\<open>eventName\<close> and \<^verbatim>\<open>useCapture\<close>, which the array leaves out, and it is declared in a loop
  over the event props (line 252), so that React matches it with the effect that stood at
  the same position in the previous render, whatever prop that one belonged to. On the
  element 7 with \<^verbatim>\<open>{onA: h1, onB: h2}\<close> mounted and rendered once more, a render with
  \<^verbatim>\<open>{onB: h1, onA: h2}\<close> gives both props a new handler and yet detaches and attaches
  nothing: \<^verbatim>\<open>h1\<close> goes on listening to \<^verbatim>\<open>a\<close> and \<^verbatim>\<open>h2\<close> to \<^verbatim>\<open>b\<close>. A render with
  \<^verbatim>\<open>{onB: h1, onCCapture: h2}\<close> does nothing either: no capturing listener for \<^verbatim>\<open>c\<close> is
  attached, and \<^verbatim>\<open>h1\<close> still listens to \<^verbatim>\<open>a\<close>. A render with one event prop fewer or one
  more calls another number of hooks, which React rejects with an error.
\<close>

theorem stale_event_listeners:
  "mount browserEnv (MyProfileOptions 19) 7 twoHandlers =
     Inr (firstMounted,
          [AddEventListener 7 ''a'' handler1 False, AddEventListener 7 ''b'' handler2 False]) \<and>
   update browserEnv (MyProfileOptions 19) firstMounted twoHandlers =
     Inr (mountedTwoHandlers,
          [RemoveEventListener 7 ''a'' handler1 False, RemoveEventListener 7 ''b'' handler2 False,
           AddEventListener 7 ''a'' handler1 False, AddEventListener 7 ''b'' handler2 False]) \<and>
   update browserEnv (MyProfileOptions 19) mountedTwoHandlers twoHandlersSwapped =
     Inr (mountedTwoHandlers, []) \<and>
   update browserEnv (MyProfileOptions 19) mountedTwoHandlers
     [(''onB'', handler1), (''onCCapture'', handler2)] =
     Inr (mountedTwoHandlers, []) \<and>
   update browserEnv (MyProfileOptions 19) mountedTwoHandlers [(''onA'', handler1)] =
     Inl HookCountChanged \<and>
   update browserEnv (MyProfileOptions 19) mountedTwoHandlers
     [(''onA'', handler1), (''onB'', handler2), (''onC'', handler1)] =
     Inl HookCountChanged \<and>
   map es_cleanup (eventSlots mountedTwoHandlers) =
     [Some (RemoveEventListener 7 ''a'' handler1 False),
      Some (RemoveEventListener 7 ''b'' handler2 False)]"
  by code_simp

subsection \<open>C9: errors during classification\<close>

lemma default_conversion_converts:
  "\<not> js_nullish (defaultToAttributeValue v) \<Longrightarrow> \<exists>s. js_String (defaultToAttributeValue v) = Inr s"
  by (cases v) (simp_all add: defaultToAttributeValue_def js_nullish_def)

lemma inherited_not_reserved: "k \<in> set objectPrototypeNames \<Longrightarrow> k \<notin> set reservedReactProps"
  by (auto simp: objectPrototypeNames_def reservedReactProps_def)

lemma default_attrName:
  assumes "toAttributeName opts = None"
  shows "attrNameOf env opts k =
     (if k \<in> set objectPrototypeNames then Inl TypeError
      else Inr (toLowerCase env (if k = ''className'' then ''class''
                             else if k = ''htmlFor'' then ''for'' else k)))"
proof (cases "k \<in> set objectPrototypeNames")
  case True
  then have "k \<noteq> ''className''" "k \<noteq> ''htmlFor''"
    by (auto simp: objectPrototypeNames_def)
  with True assms show ?thesis
    by (simp add: attrNameOf_def toAttributeNameOf_def reactPropToAttrNameMap_def
        objectPrototypeMember_def defaultToAttributeName_def)
next
  case False
  then have "k \<noteq> ''__proto__''" by (auto simp: objectPrototypeNames_def)
  with False assms show ?thesis
    by (simp add: attrNameOf_def toAttributeNameOf_def reactPropToAttrNameMap_def
        objectPrototypeMember_def defaultToAttributeName_def)
qed

lemma default_entry:
  assumes "toAttributeName opts = None" and "toAttributeValue opts = None"
  shows "(k \<in> set objectPrototypeNames \<longrightarrow> classify_entry env opts (k, v) st = Inl TypeError) \<and>
         (k \<notin> set objectPrototypeNames \<longrightarrow> (\<exists>st'. classify_entry env opts (k, v) st = Inr st'))"
proof (intro conjI impI)
  assume k: "k \<in> set objectPrototypeNames"
  with inherited_not_reserved [OF k] default_attrName [OF assms(1), where k = k]
  show "classify_entry env opts (k, v) st = Inl TypeError"
    by (simp add: classify_entry_def)
next
  assume k: "k \<notin> set objectPrototypeNames"
  from assms(2) have conv: "toAttributeValueOf opts v = defaultToAttributeValue v"
    by (simp add: toAttributeValueOf_def)
  have fallback: "\<exists>st'. attributeFallback opts a v st = Inr st'" for a
    using default_conversion_converts [of v]
    by (auto simp: attributeFallback_eq conv)
  from k default_attrName [OF assms(1), where k = k] fallback
  show "\<exists>st'. classify_entry env opts (k, v) st = Inr st'"
    by (simp add: classify_entry_def)
qed

text \<open>
  With the default policies classification throws exactly when a key of the bag is the
  name of a member that plain objects inherit, such as \<^verbatim>\<open>constructor\<close> or \<^verbatim>\<open>toString\<close>:
  the rename table of line 114 is a plain object, line 210 finds the inherited member
  instead of \<^verbatim>\<open>undefined\<close>, and \<^verbatim>\<open>defaultToAttributeName\<close> calls \<^verbatim>\<open>toLowerCase\<close> on it.
\<close>

lemma default_classification_raises_iff:
  assumes "toAttributeName opts = None" and "toAttributeValue opts = None"
  shows "(if \<exists>k \<in> fst ` set props. k \<in> set objectPrototypeNames
          then classify_loop env opts props st = Inl TypeError
          else \<exists>c. classify_loop env opts props st = Inr c)"
proof (induction props arbitrary: st)
  case Nil
  then show ?case by simp
next
  case (Cons kv kvs)
  obtain k v where kv: "kv = (k, v)" by (cases kv)
  note e = default_entry [OF assms, of k env v st]
  show ?case
  proof (cases "k \<in> set objectPrototypeNames")
    case True
    with e kv show ?thesis by simp
  next
    case False
    with e obtain st' where st': "classify_entry env opts (k, v) st = Inr st'" by blast
    from False kv have "(\<exists>k' \<in> fst ` set (kv # kvs). k' \<in> set objectPrototypeNames) \<longleftrightarrow>
        (\<exists>k' \<in> fst ` set kvs. k' \<in> set objectPrototypeNames)"
      by simp
    with Cons.IH [of st'] st' kv show ?thesis by simp
  qed
qed

text \<open>How a handler that is not a function is treated: its effect does nothing to the
  element and leaves no cleanup.\<close>

lemma handler_not_a_function:
  "js_typeof (ef_callback ef) \<noteq> TFunction \<Longrightarrow> runEventEffect r ef = ([], None)"
  by (simp add: runEventEffect_def split: option.splits)

text \<open>
  Claim C9 says that classification never raises an error, whatever the prop bag. It does
  for a prop named \<^verbatim>\<open>constructor\<close> (or \<^verbatim>\<open>toString\<close>, \<^verbatim>\<open>valueOf\<close>, ...), in the browser and off
  it, with React 18 and with React 19, and the error ends the render. The other half of
  the claim holds: a handler that is not a function, here a string, is filed as an event
  prop and mounting registers nothing for it.
\<close>

theorem inherited_prop_name_raises:
  "classify browserEnv (MyProfileOptions 19) [(''constructor'', JStr ''x'')] = Inl TypeError \<and>
   classify browserEnv (MyProfileOptions 18) [(''firstName'', JStr ''Wesley''), (''toString'', JNull)] =
     Inl TypeError \<and>
   ReactComponent serverEnv (ServerOptions 19) None [(''valueOf'', JNum ''1'')] = Inl TypeError \<and>
   mount browserEnv (MyProfileOptions 19) 7 [(''constructor'', JStr ''x'')] = Inl TypeError \<and>
   classify browserEnv (MyProfileOptions 19) [(''onFirstName'', JStr ''not a function'')] =
     Inr \<lparr>eventProps = [(''onFirstName'', JStr ''not a function'')], attrs = [],
          reactProps = [], elementProps = []\<rparr> \<and>
   mount browserEnv (MyProfileOptions 19) 7 [(''onFirstName'', JStr ''not a function'')] =
     Inr (\<lparr>elementRef = Some 7, prevElemPropsRef = [],
           eventSlots = [\<lparr>es_deps = (None, JStr ''not a function''), es_cleanup = None\<rparr>]\<rparr>, [])"
  by code_simp

end
